theory Spec2Isabelle
  imports Complex_Main
begin

section \<open>The membrane plugin of the elasticity plugins (membrane.cc)\<close>

text \<open>
  The plugin computes with \<open>mjtNum\<close>, a double. The model computes with real numbers:
  rounding, overflow and the special values of IEEE arithmetic are outside it. A division
  whose divisor is zero has no real result; the model stops there with \<open>NonFinite\<close>
  instead of using the value HOL gives to \<open>x / 0\<close>.
\<close>

subsection \<open>Numbers, failures and array reads\<close>

type_synonym mjtNum = real

datatype failure =
    MjuError int int  \<comment> \<open>\<open>mju_error("Body %d does not have plugin instance %d", bi, instance)\<close>\<close>
  | OutOfRange        \<comment> \<open>a read or write outside an array (undefined in C++)\<close>
  | Uninitialized     \<comment> \<open>a read of the member \<open>i0\<close> before any assignment to it\<close>
  | LengthError       \<comment> \<open>\<open>std::vector::assign\<close> with a negative count\<close>
  | NonFinite         \<comment> \<open>a division by zero: the double is an infinity or a NaN\<close>

type_synonym 'a res = "failure + 'a"

definition bnd :: "'a res \<Rightarrow> ('a \<Rightarrow> 'b res) \<Rightarrow> 'b res" where
  "bnd r f = (case r of Inl e \<Rightarrow> Inl e | Inr x \<Rightarrow> f x)"

text \<open>\<open>xs[i]\<close> for a C array of known extent.\<close>

definition rd :: "'a list \<Rightarrow> int \<Rightarrow> 'a res" where
  "rd xs i = (if 0 \<le> i \<and> i < int (length xs) then Inr (xs ! nat i) else Inl OutOfRange)"

text \<open>A pointer into an array: the array and the offset, so \<open>p[i]\<close> is \<open>xs[off + i]\<close>.\<close>

type_synonym 'a ptr = "'a list \<times> int"

definition rdp :: "'a ptr \<Rightarrow> int \<Rightarrow> 'a res" where
  "rdp p i = rd (fst p) (snd p + i)"

text \<open>\<open>n\<close> consecutive entries from \<open>off\<close> on, as a \<open>memcpy\<close> or a loop over \<open>0..n-1\<close> reads them.\<close>

definition slice :: "'a list \<Rightarrow> int \<Rightarrow> nat \<Rightarrow> 'a list res" where
  "slice xs off n =
     (if 0 \<le> off \<and> off + int n \<le> int (length xs) then Inr (take n (drop (nat off) xs))
      else Inl OutOfRange)"

text \<open>\<open>memcpy(dst + off, src, n)\<close> into an array, the entries of \<open>src\<close> being \<open>ys\<close>.\<close>

definition wr_block :: "'a ptr \<Rightarrow> int \<Rightarrow> 'a list \<Rightarrow> 'a list res" where
  "wr_block p i ys =
     (let xs = fst p; off = snd p + i in
      if 0 \<le> off \<and> off + int (length ys) \<le> int (length xs)
      then Inr (take (nat off) xs @ ys @ drop (nat off + length ys) xs)
      else Inl OutOfRange)"

subsection \<open>Vectors\<close>

type_synonym vec3 = "mjtNum \<times> mjtNum \<times> mjtNum"

fun at3 :: "vec3 \<Rightarrow> nat \<Rightarrow> mjtNum" where
  "at3 (a0, a1, a2) i = (if i = 0 then a0 else if i = 1 then a1 else a2)"

definition rd3 :: "mjtNum ptr \<Rightarrow> int \<Rightarrow> vec3 res" where
  "rd3 x i = bnd (rdp x i) (\<lambda>a0. bnd (rdp x (i + 1)) (\<lambda>a1. bnd (rdp x (i + 2)) (\<lambda>a2.
     Inr (a0, a1, a2))))"

text \<open>
  Modelled from the spec: the engine's helpers \<open>mju_sub3\<close>, \<open>mju_cross\<close>, \<open>mju_norm3\<close>,
  \<open>mju_normalize3\<close> and \<open>mju_abs\<close> are declared in mujoco.h and their bodies are not in
  membrane.cc. The spec names them: the difference of two positions (an edge vector), the
  cross product, its magnitude, the unit normal, the absolute value.
\<close>

fun mju_sub3 :: "vec3 \<Rightarrow> vec3 \<Rightarrow> vec3" where
  "mju_sub3 (a0, a1, a2) (b0, b1, b2) = (a0 - b0, a1 - b1, a2 - b2)"

fun mju_cross :: "vec3 \<Rightarrow> vec3 \<Rightarrow> vec3" where
  "mju_cross (a0, a1, a2) (b0, b1, b2) = (a1 * b2 - a2 * b1, a2 * b0 - a0 * b2, a0 * b1 - a1 * b0)"

fun mju_norm3 :: "vec3 \<Rightarrow> mjtNum" where
  "mju_norm3 (a0, a1, a2) = sqrt (a0 * a0 + a1 * a1 + a2 * a2)"

definition mju_normalize3 :: "vec3 \<Rightarrow> vec3 res" where
  "mju_normalize3 a =
     (let n = mju_norm3 a in
      if n = 0 then Inl NonFinite else Inr (at3 a 0 / n, at3 a 1 / n, at3 a 2 / n))"

definition mju_abs :: "mjtNum \<Rightarrow> mjtNum" where
  "mju_abs a = \<bar>a\<bar>"

subsection \<open>The stencil\<close>

text \<open>
  Modelled from the spec: \<open>Stencil2D\<close> is declared in elasticity.h, which is not in src.
  Each element references exactly \<open>kNumVerts\<close> (3) vertices and \<open>kNumEdges\<close> (3) logical
  edges. The table \<open>Stencil2D::edge\<close> is supplied externally, so it is a parameter here:
  row \<open>e\<close> holds the two local indices \<open>edge[e][0]\<close> and \<open>edge[e][1]\<close>.
\<close>

definition kNumEdges :: nat where
  "kNumEdges = 3"

definition kNumVerts :: nat where
  "kNumVerts = 3"

type_synonym stencil = "(int \<times> int) list"

subsection \<open>ComputeVolume and ComputeBasis\<close>

text \<open>The vertex \<open>x + 3*v[k]\<close> of an element whose vertex ids start at \<open>v\<close>.\<close>

definition vertex :: "mjtNum ptr \<Rightarrow> int ptr \<Rightarrow> int \<Rightarrow> vec3 res" where
  "vertex x v k = bnd (rdp v k) (\<lambda>vk. rd3 x (3 * vk))"

definition ComputeVolume :: "mjtNum ptr \<Rightarrow> int ptr \<Rightarrow> mjtNum res" where
  "ComputeVolume x v =
     bnd (vertex x v 1) (\<lambda>p1. bnd (vertex x v 0) (\<lambda>p0. bnd (vertex x v 2) (\<lambda>p2.
       let edge1 = mju_sub3 p1 p0;
           edge2 = mju_sub3 p2 p0;
           normal = mju_cross edge1 edge2
       in Inr (mju_norm3 normal / 2))))"

text \<open>The double loop over \<open>i\<close> and \<open>j\<close> that fills \<open>basis[3*i+j]\<close>.\<close>

definition basis_entries :: "vec3 \<Rightarrow> vec3 \<Rightarrow> mjtNum \<Rightarrow> mjtNum list" where
  "basis_entries basisL basisR area =
     concat (map (\<lambda>i. map (\<lambda>j.
       (at3 basisL i * at3 basisR j + at3 basisR i * at3 basisL j) / (8 * area * area))
       [0..<3]) [0..<3])"

definition ComputeBasis ::
  "mjtNum ptr \<Rightarrow> int ptr \<Rightarrow> int \<times> int \<Rightarrow> int \<times> int \<Rightarrow> mjtNum \<Rightarrow> mjtNum list res" where
  "ComputeBasis x v faceL faceR area =
     bnd (vertex x v (fst faceL)) (\<lambda>pL0. bnd (vertex x v (snd faceL)) (\<lambda>pL1.
     bnd (vertex x v (snd faceR)) (\<lambda>pR1. bnd (vertex x v (fst faceR)) (\<lambda>pR0.
       let edgesL = mju_sub3 pL0 pL1;
           edgesR = mju_sub3 pR1 pR0
       in bnd (mju_normalize3 (mju_cross edgesR edgesL)) (\<lambda>normal.
            let basisL = mju_cross normal edgesL;
                basisR = mju_cross edgesR normal
            in if 8 * area * area = 0 then Inl NonFinite
               else Inr (basis_entries basisL basisR area))))))"

subsection \<open>The model, the data and the plugin's state\<close>

text \<open>The fields of \<open>mjModel\<close> and \<open>mjData\<close> that membrane.cc reads or writes.\<close>

record mjModel =
  nbody :: int
  body_plugin :: "int list"
  nflex :: int
  flex_dim :: "int list"
  flex_vertadr :: "int list"
  flex_vertnum :: "int list"
  flex_vertbodyid :: "int list"
  flex_xvert0 :: "mjtNum list"
  flex_elemadr :: "int list"
  flex_elemnum :: "int list"
  flex_elemdataadr :: "int list"
  flex_elem :: "int list"
  flex_edgeadr :: "int list"
  flex_edgenum :: "int list"
  flex_stiffness :: "mjtNum list"
  flexedge_length0 :: "mjtNum list"
  opt_timestep :: mjtNum

record mjData =
  flexedge_length :: "mjtNum list"
  flexvert_xpos :: "mjtNum list"
  qfrc_passive :: "mjtNum list"

text \<open>
  The members of \<open>Membrane\<close> (membrane.h is not in src; these are the members membrane.cc
  uses). \<open>i0\<close> has no initialiser: it is \<open>None\<close> until the constructor assigns it.
\<close>

record Membrane =
  f0 :: int
  i0 :: "int option"
  nv :: int
  ne :: int
  damping :: mjtNum
  thickness :: mjtNum
  elongation :: "mjtNum list"
  force :: "mjtNum list"
  prev :: "mjtNum list"

text \<open>
  Modelled from the spec: what membrane.cc calls and elasticity.h or the engine defines
  (\<open>Stencil2D::edge\<close>, \<open>MetricTensor\<close>, \<open>ComputeForce\<close>, \<open>AddFlexForce\<close>, \<open>CheckAttr\<close>,
  \<open>mj_getPluginConfig\<close>, \<open>strtod\<close>), none of it in src. Each is a parameter:
  \<^item> \<open>Stencil2D_edge\<close>: the stencil table;
  \<^item> \<open>metric_forms\<close>: the stiffness tensor is a combination of the edge-pair basis tensors
    weighted by \<open>\<mu>\<close> and \<open>\<lambda>\<close>; each stored entry has one form of the basis tensors for
    \<open>\<mu>\<close> and one for \<open>\<lambda>\<close>;
  \<^item> \<open>elem_edge\<close> and \<open>contraction\<close>: the edges of an element, and the coefficient with
    which the elongation of a local edge of an element enters a component of the force
    (the stiffness tensor contracted with the gradient at the live vertex positions);
  \<^item> \<open>AddFlexForce\<close>: the new global force accumulator, from the old one and the buffer;
  \<^item> \<open>CheckAttr\<close>, \<open>mj_getPluginConfig\<close>, \<open>strtod\<close>: attribute intake.
\<close>

record host =
  Stencil2D_edge :: stencil
  metric_forms :: "((mjtNum list list \<Rightarrow> mjtNum) \<times> (mjtNum list list \<Rightarrow> mjtNum)) list"
  elem_edge :: "mjModel \<Rightarrow> int \<Rightarrow> nat \<Rightarrow> nat \<Rightarrow> int"
  contraction :: "mjModel \<Rightarrow> mjData \<Rightarrow> int \<Rightarrow> nat \<Rightarrow> nat \<Rightarrow> nat \<Rightarrow> mjtNum"
  AddFlexForce :: "mjtNum list \<Rightarrow> mjtNum list \<Rightarrow> mjModel \<Rightarrow> mjData \<Rightarrow> int \<Rightarrow> mjtNum list"
  CheckAttr :: "string \<Rightarrow> mjModel \<Rightarrow> int \<Rightarrow> bool"
  mj_getPluginConfig :: "mjModel \<Rightarrow> int \<Rightarrow> string \<Rightarrow> string"
  strtod :: "string \<Rightarrow> mjtNum"

subsection \<open>Loops\<close>

text \<open>
  A \<open>for\<close> loop over the indices \<open>is\<close> whose body may fail: it returns the state it has
  reached, and the failure that stopped it, if any.
\<close>

fun for_loop :: "('i \<Rightarrow> 's \<Rightarrow> 's res) \<Rightarrow> 'i list \<Rightarrow> 's \<Rightarrow> 's \<times> failure option" where
  "for_loop body [] s = (s, None)"
| "for_loop body (i # is) s =
     (case body i s of Inl e \<Rightarrow> (s, Some e) | Inr s' \<Rightarrow> for_loop body is s')"

definition for_res :: "('i \<Rightarrow> 's \<Rightarrow> 's res) \<Rightarrow> 'i list \<Rightarrow> 's \<Rightarrow> 's res" where
  "for_res body is s = (case for_loop body is s of (s', None) \<Rightarrow> Inr s' | (s', Some e) \<Rightarrow> Inl e)"

subsection \<open>The constructor\<close>

text \<open>Lines 102-109: count the plugin's bodies; \<open>i0\<close> is the first of them.\<close>

definition count_body :: "mjModel \<Rightarrow> int \<Rightarrow> nat \<Rightarrow> int \<times> int option \<Rightarrow> (int \<times> int option) res" where
  "count_body m instance i st =
     bnd (rd (body_plugin m) (int i)) (\<lambda>p.
       if p = instance
       then Inr (fst st + 1, if fst st = 0 then Some (int i) else snd st)
       else Inr st)"

text \<open>Lines 112-119: the last flex with a vertex on body \<open>i0\<close>; \<open>nv\<close> is its vertex count.\<close>

definition flex_vert :: "mjModel \<Rightarrow> int option \<Rightarrow> nat \<Rightarrow> nat \<Rightarrow> int \<times> int \<Rightarrow> (int \<times> int) res" where
  "flex_vert m b0 i j st =
     bnd (rd (flex_vertadr m) (int i)) (\<lambda>adr.
     bnd (rd (flex_vertbodyid m) (adr + int j)) (\<lambda>b.
       case b0 of
         None \<Rightarrow> Inl Uninitialized
       | Some b0' \<Rightarrow>
           if b = b0' then bnd (rd (flex_vertnum m) (int i)) (\<lambda>n. Inr (int i, n))
           else Inr st))"

definition count_flex :: "mjModel \<Rightarrow> int option \<Rightarrow> nat \<Rightarrow> int \<times> int \<Rightarrow> (int \<times> int) res" where
  "count_flex m b0 i st =
     bnd (rd (flex_vertnum m) (int i)) (\<lambda>n. for_res (flex_vert m b0 i) [0..<nat n] st)"

definition locate :: "mjModel \<Rightarrow> int \<Rightarrow> (int option \<times> int \<times> int) res" where
  "locate m instance =
     bnd (for_res (count_body m instance) [1..<nat (nbody m)] (0, None)) (\<lambda>st.
     bnd (for_res (count_flex m (snd st)) [0..<nat (nflex m)] (-1, fst st)) (\<lambda>st'.
       Inr (snd st, fst st', snd st')))"

text \<open>Lines 128-133: the body of each vertex of the triangle is 0 or a body of this instance.\<close>

definition vertex_body :: "mjModel \<Rightarrow> int \<Rightarrow> int ptr \<Rightarrow> nat \<Rightarrow> int res" where
  "vertex_body m f v i =
     bnd (rd (flex_vertadr m) f) (\<lambda>vadr.
     bnd (rdp v (int i)) (\<lambda>vi.
       rd (flex_vertbodyid m) (vadr + vi)))"

definition check_vertex :: "mjModel \<Rightarrow> int \<Rightarrow> int \<Rightarrow> int ptr \<Rightarrow> nat \<Rightarrow> unit \<Rightarrow> unit res" where
  "check_vertex m instance f v i u =
     bnd (vertex_body m f v i) (\<lambda>bi.
       if bi \<noteq> 0
       then bnd (rd (body_plugin m) bi) (\<lambda>p.
              if p \<noteq> instance then Inl (MjuError bi instance) else Inr ())
       else Inr ())"

definition scan :: "mjModel \<Rightarrow> int \<Rightarrow> int \<Rightarrow> int ptr \<Rightarrow> unit res" where
  "scan m instance f v = for_res (check_vertex m instance f v) [0..<kNumVerts] ()"

text \<open>Lines 139-140.\<close>

definition shear :: "mjtNum \<Rightarrow> mjtNum \<Rightarrow> mjtNum \<Rightarrow> mjtNum \<Rightarrow> mjtNum" where
  "shear E nu volume thick = E / (2 * (1 + nu)) * mju_abs volume / 4 * thick"

definition dilation :: "mjtNum \<Rightarrow> mjtNum \<Rightarrow> mjtNum \<Rightarrow> mjtNum \<Rightarrow> mjtNum" where
  "dilation E nu volume thick = E * nu / ((1 + nu) * (1 - 2 * nu)) * mju_abs volume / 4 * thick"

text \<open>Lines 143-150: the basis of each local edge, from the stencil rows of its two other edges.\<close>

definition edge_basis ::
  "host \<Rightarrow> mjtNum ptr \<Rightarrow> int ptr \<Rightarrow> mjtNum \<Rightarrow> nat \<Rightarrow> mjtNum list list \<Rightarrow> mjtNum list list res" where
  "edge_basis h x v volume e basis =
     bnd (rd (Stencil2D_edge h) (int e)) (\<lambda>row.
     bnd (rd (Stencil2D_edge h) (fst row)) (\<lambda>faceL.
     bnd (rd (Stencil2D_edge h) (snd row)) (\<lambda>faceR.
     bnd (ComputeBasis x v faceL faceR volume) (\<lambda>b.
       if e < length basis then Inr (basis[e := b]) else Inl OutOfRange))))"

definition edge_bases :: "host \<Rightarrow> mjtNum ptr \<Rightarrow> int ptr \<Rightarrow> mjtNum \<Rightarrow> mjtNum list list res" where
  "edge_bases h x v volume =
     for_res (edge_basis h x v volume) [0..<kNumEdges] (replicate kNumEdges (replicate 9 0))"

text \<open>
  Modelled from the spec: \<open>MetricTensor\<close> (elasticity.h, not in src) assembles the element's
  tensor as a combination of the basis tensors weighted by \<open>\<mu>\<close> and \<open>\<lambda>\<close> and stores its
  entries at the element's offset, 21 scalars per element, in the stiffness storage.
\<close>

definition element_tensor :: "host \<Rightarrow> mjtNum \<Rightarrow> mjtNum \<Rightarrow> mjtNum list list \<Rightarrow> mjtNum list" where
  "element_tensor h mu la basis = map (\<lambda>ab. mu * fst ab basis + la * snd ab basis) (metric_forms h)"

definition MetricTensor ::
  "host \<Rightarrow> mjtNum ptr \<Rightarrow> nat \<Rightarrow> mjtNum \<Rightarrow> mjtNum \<Rightarrow> mjtNum list list \<Rightarrow> mjtNum list res" where
  "MetricTensor h metric idx mu la basis =
     wr_block metric (21 * int idx) (element_tensor h mu la basis)"

text \<open>
  Lines 127-155, one triangle \<open>t\<close>: the state of the loop is the stiffness storage
  \<open>m->flex_stiffness\<close>, which \<open>MetricTensor\<close> writes.
\<close>

definition element ::
  "host \<Rightarrow> mjModel \<Rightarrow> int \<Rightarrow> mjtNum \<Rightarrow> mjtNum \<Rightarrow> mjtNum \<Rightarrow> int \<Rightarrow> mjtNum ptr \<Rightarrow> int ptr \<Rightarrow>
   nat \<Rightarrow> mjtNum list \<Rightarrow> mjtNum list res" where
  "element h m instance nu E thick f body_pos elem t stiff =
     bnd (rd (flex_dim m) f) (\<lambda>dim.
     let v = (fst elem, snd elem + (dim + 1) * int t) in
     bnd (scan m instance f v) (\<lambda>u.
     bnd (ComputeVolume body_pos v) (\<lambda>volume.
       if 2 * (1 + nu) = 0 \<or> (1 + nu) * (1 - 2 * nu) = 0 then Inl NonFinite
       else
         let mu = shear E nu volume thick;
             la = dilation E nu volume thick
         in bnd (edge_bases h body_pos v volume) (\<lambda>basis.
            bnd (rd (flex_elemadr m) f) (\<lambda>eadr.
              MetricTensor h (stiff, 21 * eadr) t mu la basis)))))"

text \<open>Lines 121-156: the loop over the triangles of flex \<open>f\<close>, from the storage \<open>stiff\<close>.\<close>

definition triangles ::
  "host \<Rightarrow> mjModel \<Rightarrow> int \<Rightarrow> mjtNum \<Rightarrow> mjtNum \<Rightarrow> mjtNum \<Rightarrow> int \<Rightarrow> mjtNum list \<Rightarrow>
   mjtNum list \<times> failure option" where
  "triangles h m instance nu E thick f stiff =
     (case bnd (rd (flex_vertadr m) f) (\<lambda>vadr. bnd (rd (flex_elemdataadr m) f) (\<lambda>edadr.
           bnd (rd (flex_elemnum m) f) (\<lambda>nt. Inr (vadr, edadr, nt)))) of
        Inl e \<Rightarrow> (stiff, Some e)
      | Inr g \<Rightarrow>
          for_loop (element h m instance nu E thick f
                      (flex_xvert0 m, 3 * fst g) (flex_elem m, fst (snd g)))
            [0..<nat (snd (snd g))] stiff)"

text \<open>Lines 158-161.\<close>

definition allocate :: "mjModel \<Rightarrow> int option \<Rightarrow> int \<Rightarrow> int \<Rightarrow> mjtNum \<Rightarrow> mjtNum \<Rightarrow> Membrane res" where
  "allocate m b0 f n damp thick =
     bnd (rd (flex_edgenum m) f) (\<lambda>k.
       if k < 0 \<or> 3 * n < 0 then Inl LengthError
       else Inr \<lparr>f0 = f, i0 = b0, nv = n, ne = k, damping = damp, thickness = thick,
                 elongation = replicate (nat k) 0, force = replicate (nat (3 * n)) 0,
                 prev = []\<rparr>)"

text \<open>
  \<open>Membrane::Membrane\<close>: the outcome, and the stiffness storage of the model as the
  constructor leaves it (it writes into the \<open>const mjModel\<close>). The argument \<open>d\<close> is unused.
\<close>

definition Membrane_ctor ::
  "host \<Rightarrow> mjModel \<Rightarrow> int \<Rightarrow> mjtNum \<Rightarrow> mjtNum \<Rightarrow> mjtNum \<Rightarrow> mjtNum \<Rightarrow> Membrane res \<times> mjtNum list" where
  "Membrane_ctor h m instance nu E thick damp =
     (case locate m instance of
        Inl e \<Rightarrow> (Inl e, flex_stiffness m)
      | Inr loc \<Rightarrow>
          (let b0 = fst loc; f = fst (snd loc); n = snd (snd loc);
               r = triangles h m instance nu E thick f (flex_stiffness m)
           in (case snd r of
                 Some e \<Rightarrow> (Inl e, fst r)
               | None \<Rightarrow> (allocate m b0 f n damp thick, fst r))))"

subsection \<open>The factory function\<close>

text \<open>
  \<open>Membrane::Create\<close>: the outcome (\<open>None\<close> is \<open>std::nullopt\<close>), the stiffness storage, and
  the warnings given to \<open>mju_warning\<close>.
\<close>

definition Create ::
  "host \<Rightarrow> mjModel \<Rightarrow> int \<Rightarrow> Membrane option res \<times> mjtNum list \<times> string list" where
  "Create h m instance =
     (if CheckAttr h ''face'' m instance \<and> CheckAttr h ''poisson'' m instance \<and>
         CheckAttr h ''young'' m instance \<and> CheckAttr h ''thickness'' m instance
      then
        let nu = strtod h (mj_getPluginConfig h m instance ''poisson'');
            E = strtod h (mj_getPluginConfig h m instance ''young'');
            thick = strtod h (mj_getPluginConfig h m instance ''thickness'');
            damp = strtod h (mj_getPluginConfig h m instance ''damping'');
            r = Membrane_ctor h m instance nu E thick damp
        in (bnd (fst r) (\<lambda>s. Inr (Some s)), snd r, [])
      else (Inr None, flex_stiffness m, [''Invalid parameter specification in shell plugin'']))"

subsection \<open>The evaluation step\<close>

text \<open>Lines 172-175: the first evaluation copies the reference lengths into \<open>prev\<close>.\<close>

definition init_prev :: "mjtNum ptr \<Rightarrow> Membrane \<Rightarrow> mjtNum list res" where
  "init_prev ref s =
     (if prev s = []
      then (if ne s < 0 then Inl LengthError else slice (fst ref) (snd ref) (nat (ne s)))
      else Inr (prev s))"

text \<open>Lines 181-184, one edge \<open>idx\<close>: the state of the loop is the vector \<open>elongation\<close>.\<close>

definition elongate ::
  "mjtNum ptr \<Rightarrow> mjtNum ptr \<Rightarrow> mjtNum list \<Rightarrow> mjtNum \<Rightarrow> nat \<Rightarrow> mjtNum list \<Rightarrow> mjtNum list res" where
  "elongate deformed ref pv kD idx el =
     bnd (rdp deformed (int idx)) (\<lambda>dl.
     bnd (rdp ref (int idx)) (\<lambda>rl.
     bnd (rd pv (int idx)) (\<lambda>pl.
       if idx < length el
       then Inr (el[idx := dl * dl - rl * rl + (dl * dl - pl * pl) * kD])
       else Inl OutOfRange)))"

text \<open>Lines 197-199: \<open>prev\<close> takes the deformed lengths of this step when \<open>kD > 0\<close>.\<close>

definition update_prev :: "mjtNum ptr \<Rightarrow> mjtNum list \<Rightarrow> mjtNum \<Rightarrow> int \<Rightarrow> mjtNum list res" where
  "update_prev deformed pv kD n =
     (if kD > 0
      then (if n < 0 then Inl OutOfRange
            else bnd (slice (fst deformed) (snd deformed) (nat n)) (\<lambda>dls.
                   wr_block (pv, 0) 0 dls))
      else Inr pv)"

text \<open>
  Modelled from the spec: \<open>ComputeForce\<close> (elasticity.h, not in src). The force buffer is
  zero-initialized at the start of every evaluation pass; for every element, its stiffness
  tensor is contracted with the elongation values of its own edges, and the per-vertex
  contributions are accumulated into the buffer.
\<close>

definition element_force ::
  "host \<Rightarrow> mjModel \<Rightarrow> mjData \<Rightarrow> int \<Rightarrow> mjtNum list \<Rightarrow> nat \<Rightarrow> mjtNum list \<Rightarrow> mjtNum list res" where
  "element_force h m d f el t frc =
     bnd (for_res (\<lambda>e acc. bnd (rd el (elem_edge h m f t e)) (\<lambda>x. Inr (acc @ [x])))
            [0..<kNumEdges] []) (\<lambda>xs.
       Inr (map (\<lambda>c. frc ! c + (\<Sum>e\<leftarrow>[0..<kNumEdges]. xs ! e * contraction h m d f t e c))
              [0..<length frc]))"

definition ComputeForce ::
  "host \<Rightarrow> mjtNum list \<Rightarrow> mjtNum list \<Rightarrow> mjModel \<Rightarrow> mjData \<Rightarrow> int \<Rightarrow> mjtNum list res" where
  "ComputeForce h frc el m d f =
     bnd (rd (flex_elemnum m) f) (\<lambda>nt.
       for_res (element_force h m d f el) [0..<nat nt] (replicate (length frc) 0))"

text \<open>
  \<open>Membrane::Compute\<close>: the new state of the plugin and the new data (only \<open>qfrc_passive\<close>
  changes).
\<close>

definition Compute :: "host \<Rightarrow> mjModel \<Rightarrow> mjData \<Rightarrow> Membrane \<Rightarrow> (Membrane \<times> mjData) res" where
  "Compute h m d s =
     (if opt_timestep m = 0 then Inl NonFinite
      else
        let kD = damping s / opt_timestep m in
        bnd (rd (flex_edgeadr m) (f0 s)) (\<lambda>adr.
        let deformed = (flexedge_length d, adr);
            ref = (flexedge_length0 m, adr)
        in
        bnd (init_prev ref s) (\<lambda>pv.
        bnd (for_res (elongate deformed ref pv kD) [0..<nat (ne s)] (elongation s)) (\<lambda>el.
        bnd (rd (flex_vertadr m) (f0 s)) (\<lambda>vadr.
        bnd (ComputeForce h (force s) el m d (f0 s)) (\<lambda>frc.
        let qfrc = AddFlexForce h (qfrc_passive d) frc m d (f0 s) in
        bnd (update_prev deformed pv kD (ne s)) (\<lambda>pv'.
          Inr (s\<lparr>elongation := el, force := frc, prev := pv'\<rparr>,
               d\<lparr>qfrc_passive := qfrc\<rparr>))))))))"

text \<open>
  The states an instance goes through: the state the constructor returns, and the state
  after each evaluation step that returns, on any model and data.
\<close>

inductive reachable :: "host \<Rightarrow> Membrane \<Rightarrow> bool" for h :: host where
  built: "fst (Membrane_ctor h m instance nu E thick damp) = Inr s \<Longrightarrow> reachable h s"
| step: "reachable h s \<Longrightarrow> Compute h m d s = Inr (s', d') \<Longrightarrow> reachable h s'"


subsection \<open>Consistent states, and results that are not the fatal error\<close>

text \<open>The sizes that every state of an instance keeps.\<close>

definition consistent :: "Membrane \<Rightarrow> bool" where
  "consistent s \<longleftrightarrow> 0 \<le> ne s \<and> length (elongation s) = nat (ne s) \<and>
             (prev s = [] \<or> length (prev s) = nat (ne s))"

text \<open>A result other than the fatal error of \<open>mju_error\<close>.\<close>

definition no_mju :: "'a res \<Rightarrow> bool" where
  "no_mju r \<longleftrightarrow> (\<forall>b k. r \<noteq> Inl (MjuError b k))"

subsection \<open>Examples\<close>

text \<open>
  One flex of one right triangle with legs 3 and 4, its first vertex pinned to the world
  body; the same with a second triangle whose last vertex is on a body of plugin instance 7;
  a host whose attribute \<open>damping\<close> does not parse and whose attribute \<open>edge\<close> is missing (the
  empty string), \<open>CheckAttr\<close> accepting the values that parse.
\<close>

definition attributes :: "string \<Rightarrow> string" where
  "attributes n =
     (if n = ''face'' then ''1'' else if n = ''poisson'' then ''0.25''
      else if n = ''young'' then ''1000'' else if n = ''thickness'' then ''0.01''
      else if n = ''damping'' then ''soft'' else [])"

definition parses :: "string \<Rightarrow> bool" where
  "parses s \<longleftrightarrow> s \<in> set [''1'', ''0.25'', ''1000'', ''0.01'']"

definition std_host :: host where
  "std_host =
     \<lparr>Stencil2D_edge = [(1, 2), (2, 0), (0, 1)],
      metric_forms = [(\<lambda>b. b ! 0 ! 1, \<lambda>b. b ! 1 ! 2), (\<lambda>b. b ! 2 ! 0, \<lambda>b. b ! 2 ! 4)],
      elem_edge = (\<lambda>m f t e. int e),
      contraction = (\<lambda>m d f t e c. flex_stiffness m ! (21 * t) * flexvert_xpos d ! c),
      AddFlexForce = (\<lambda>q frc m d f. map2 (+) q frc),
      CheckAttr = (\<lambda>n m i. parses (attributes n)),
      mj_getPluginConfig = (\<lambda>m i n. attributes n),
      strtod = (\<lambda>s. if s = ''1'' then 1 else if s = ''0.25'' then 1 / 4
                    else if s = ''1000'' then 1000 else if s = ''0.01'' then 1 / 100 else 0)\<rparr>"

definition pinned :: mjModel where
  "pinned =
     \<lparr>nbody = 3, body_plugin = [-1, 0, 0], nflex = 1, flex_dim = [2], flex_vertadr = [0],
      flex_vertnum = [3], flex_vertbodyid = [0, 1, 2],
      flex_xvert0 = [0, 0, 0, 3, 0, 0, 0, 4, 0],
      flex_elemadr = [0], flex_elemnum = [1], flex_elemdataadr = [0], flex_elem = [0, 1, 2],
      flex_edgeadr = [0], flex_edgenum = [3], flex_stiffness = replicate 21 0,
      flexedge_length0 = [3, 5, 4], opt_timestep = 1 / 500\<rparr>"

definition pinned_built :: mjModel where
  "pinned_built = pinned\<lparr>flex_stiffness := 1 / 4 # - (2 / 3) # replicate 19 0\<rparr>"

definition foreign :: mjModel where
  "foreign =
     \<lparr>nbody = 5, body_plugin = [-1, 0, 0, 0, 7], nflex = 1, flex_dim = [2], flex_vertadr = [0],
      flex_vertnum = [4], flex_vertbodyid = [1, 2, 3, 4],
      flex_xvert0 = [0, 0, 0, 3, 0, 0, 0, 4, 0, 3, 4, 0],
      flex_elemadr = [0], flex_elemnum = [2], flex_elemdataadr = [0],
      flex_elem = [0, 1, 2, 1, 3, 2],
      flex_edgeadr = [0], flex_edgenum = [5], flex_stiffness = replicate 42 0,
      flexedge_length0 = [3, 5, 4, 4, 3], opt_timestep = 1 / 500\<rparr>"

definition stretched :: mjData where
  "stretched = \<lparr>flexedge_length = [4, 5, 4], flexvert_xpos = [0, 0, 0, 4, 0, 0, 0, 4, 0],
                 qfrc_passive = [1, 1, 1, 1, 1, 1, 1, 1, 1]\<rparr>"

definition rest_pose :: mjData where
  "rest_pose = \<lparr>flexedge_length = [3, 5, 4], flexvert_xpos = [0, 0, 0, 3, 0, 0, 0, 4, 0],
                 qfrc_passive = [1, 1, 1, 1, 1, 1, 1, 1, 1]\<rparr>"

definition built :: "mjtNum \<Rightarrow> Membrane" where
  "built damp = \<lparr>f0 = 0, i0 = Some 1, nv = 3, ne = 3, damping = damp,
             thickness = 1 / 100, elongation = [0, 0, 0],
             force = replicate 9 0, prev = []\<rparr>"

definition stepped :: "mjtNum \<Rightarrow> mjtNum list \<Rightarrow> mjtNum list \<Rightarrow> mjtNum list \<Rightarrow> Membrane" where
  "stepped damp el frc pv = (built damp)\<lparr>elongation := el, force := frc, prev := pv\<rparr>"

section \<open>Properties\<close>

subsection \<open>Results and loops\<close>

lemma bnd_Inr [simp]: "bnd (Inr x) f = f x"
  by (simp add: bnd_def)

lemma bnd_Inl [simp]: "bnd (Inl e) f = Inl e"
  by (simp add: bnd_def)

lemma bnd_eq_Inr: "bnd r f = Inr y \<longleftrightarrow> (\<exists>x. r = Inr x \<and> f x = Inr y)"
  by (cases r) simp_all

lemma bnd_eq_Inl: "bnd r f = Inl e \<longleftrightarrow> r = Inl e \<or> (\<exists>x. r = Inr x \<and> f x = Inl e)"
  by (cases r) simp_all

lemma rd_eq_Inr: "rd xs i = Inr x \<longleftrightarrow> 0 \<le> i \<and> i < int (length xs) \<and> x = xs ! nat i"
  by (auto simp: rd_def)

lemma slice_Inr:
  "slice xs off n = Inr ys \<longleftrightarrow>
     0 \<le> off \<and> off + int n \<le> int (length xs) \<and> ys = take n (drop (nat off) xs)"
  by (auto simp: slice_def)

lemma slice_nth:
  assumes "slice xs off n = Inr ys" and "i < n"
  shows "ys ! i = xs ! nat (off + int i)"
proof -
  from assms(1) have off: "0 \<le> off" and le: "off + int n \<le> int (length xs)"
    and ys: "ys = take n (drop (nat off) xs)"
    by (simp_all add: slice_Inr)
  have "nat off + i < length xs" using off le assms(2) by linarith
  moreover have "nat (off + int i) = nat off + i" using off by linarith
  ultimately show ?thesis using ys assms(2) by simp
qed

lemma slice_length: "slice xs off n = Inr ys \<Longrightarrow> length ys = n"
  by (auto simp: slice_Inr)

lemma wr_block_whole:
  assumes "wr_block (pv, 0) 0 dls = Inr pv'"
  shows "pv' = dls @ drop (length dls) pv \<and> length dls \<le> length pv"
  using assms by (auto simp: wr_block_def Let_def split: if_splits)

lemma for_res_Nil [simp]: "for_res body [] s = Inr s"
  by (simp add: for_res_def)

lemma for_res_Cons [simp]: "for_res body (i # is) s = bnd (body i s) (for_res body is)"
  by (cases "body i s") (simp_all add: for_res_def)

lemma for_res_append: "for_res body (xs @ ys) s = bnd (for_res body xs s) (for_res body ys)"
proof (induction xs arbitrary: s)
  case Nil
  show ?case by simp
next
  case (Cons x xs)
  show ?case by (cases "body x s") (simp_all add: Cons.IH)
qed

lemma for_res_Suc:
  "for_res body [0..<Suc n] s = bnd (for_res body [0..<n] s) (body n)"
proof -
  have "for_res body [0..<Suc n] s = for_res body ([0..<n] @ [n]) s" by simp
  also have "\<dots> = bnd (for_res body [0..<n] s) (for_res body [n])" by (rule for_res_append)
  also have "for_res body [n] = body n"
    by (rule ext) (simp add: bnd_def split: sum.splits)
  finally show ?thesis .
qed

lemma for_res_invariant:
  assumes "for_res body is s = Inr s'" and "P s"
    and "\<And>i t t'. P t \<Longrightarrow> body i t = Inr t' \<Longrightarrow> P t'"
  shows "P s'"
  using assms(1,2)
proof (induction "is" arbitrary: s)
  case Nil
  then show ?case by simp
next
  case (Cons i "is")
  from Cons.prems(1) obtain t where t: "body i s = Inr t" and r: "for_res body is t = Inr s'"
    by (auto simp: bnd_eq_Inr)
  from assms(3) [OF Cons.prems(2) t] have "P t" .
  then show ?case using Cons.IH [OF r] by simp
qed

lemma for_res_Inl:
  assumes "for_res body is s = Inl e"
  shows "\<exists>i\<in>set is. \<exists>t. body i t = Inl e"
  using assms
proof (induction "is" arbitrary: s)
  case Nil
  then show ?case by simp
next
  case (Cons i "is")
  then show ?case by (cases "body i s") auto
qed

lemma for_loop_Some:
  assumes "for_loop body is s = (k, Some e)"
  shows "\<exists>i\<in>set is. \<exists>t. body i t = Inl e"
  using assms
proof (induction "is" arbitrary: s)
  case Nil
  then show ?case by simp
next
  case (Cons i "is")
  then show ?case by (cases "body i s") auto
qed

lemma for_loop_append:
  "for_loop body (xs @ ys) s =
     (case for_loop body xs s of (s', None) \<Rightarrow> for_loop body ys s' | (s', Some e) \<Rightarrow> (s', Some e))"
proof (induction xs arbitrary: s)
  case Nil
  show ?case by simp
next
  case (Cons x xs)
  show ?case by (cases "body x s") (simp_all add: Cons.IH)
qed

lemma for_loop_stops:
  assumes "for_loop body [0..<t] s = (k, None)" and "body t k = Inl e" and "t < n"
  shows "for_loop body [0..<n] s = (k, Some e)"
proof -
  have "[0..<n] = [0..<t] @ [t..<n]"
    using assms(3) upt_add_eq_append [of 0 t "n - t"] by simp
  also have "[t..<n] = t # [Suc t..<n]"
    using assms(3) by (simp add: upt_conv_Cons)
  finally have "[0..<n] = [0..<t] @ t # [Suc t..<n]" .
  then show ?thesis using assms(1,2) by (simp add: for_loop_append)
qed

lemma for_res_first_failure:
  assumes "i \<in> set is" and "P (body i ())"
    and "\<forall>j\<in>set is. body j () = Inr () \<or> P (body j ())"
    and "\<And>r. P r \<Longrightarrow> isl r"
  shows "P (for_res body is ())"
  using assms(1,3)
proof (induction "is")
  case Nil
  then show ?case by simp
next
  case (Cons j js)
  show ?case
  proof (cases "body j () = Inr ()")
    case True
    have "i \<noteq> j" using True assms(2,4) by force
    with Cons.prems have "i \<in> set js" by simp
    with Cons have "P (for_res body js ())" by simp
    with True show ?thesis by simp
  next
    case False
    with Cons.prems have p: "P (body j ())" by simp
    with assms(4) obtain e where "body j () = Inl e" by (cases "body j ()") force+
    with p show ?thesis by simp
  qed
qed

lemma gather_loop:
  assumes "for_res (\<lambda>e acc. bnd (g e) (\<lambda>x. Inr (acc @ [x]))) [0..<n] [] = Inr xs"
  shows "length xs = n \<and> (\<forall>e<n. g e = Inr (xs ! e))"
  using assms
proof (induction n arbitrary: xs)
  case 0
  then show ?case by simp
next
  case (Suc n)
  from Suc.prems obtain ys x where ys: "for_res (\<lambda>e acc. bnd (g e) (\<lambda>x. Inr (acc @ [x]))) [0..<n] [] = Inr ys"
    and x: "g n = Inr x" and xs: "xs = ys @ [x]"
    unfolding for_res_Suc bnd_eq_Inr by auto
  from Suc.IH [OF ys] have l: "length ys = n" and o: "\<forall>e<n. g e = Inr (ys ! e)" by simp_all
  have "\<forall>e<Suc n. g e = Inr (xs ! e)"
  proof (intro allI impI)
    fix e assume "e < Suc n"
    then consider "e < n" | "e = n" by linarith
    then show "g e = Inr (xs ! e)"
    proof cases
      case 1
      then show ?thesis using o l xs by (simp add: nth_append)
    next
      case 2
      then show ?thesis using x l xs by (simp add: nth_append)
    qed
  qed
  then show ?case using l xs by simp
qed

subsection \<open>The basis tensor and the coefficients\<close>

lemma basis_entries_nth:
  assumes "i < 3" and "j < 3"
  shows "basis_entries bL bR area ! (3 * i + j) =
         (at3 bL i * at3 bR j + at3 bR i * at3 bL j) / (8 * area * area)"
proof -
  have i: "i = 0 \<or> i = 1 \<or> i = 2" using assms(1) by arith
  have j: "j = 0 \<or> j = 1 \<or> j = 2" using assms(2) by arith
  have u: "[0..<3] = [0, 1, 2::nat]" by (simp add: upt_rec)
  show ?thesis using i j unfolding basis_entries_def u by auto
qed

lemma basis_entries_length: "length (basis_entries bL bR area) = 9"
  by (simp add: basis_entries_def upt_rec)

lemma doubling:
  "shear E nu volume (2 * thick) = 2 * shear E nu volume thick"
  "dilation E nu volume (2 * thick) = 2 * dilation E nu volume thick"
  "element_tensor h (2 * mu) (2 * la) basis = map (\<lambda>c. 2 * c) (element_tensor h mu la basis)"
  by (simp_all add: shear_def dilation_def element_tensor_def algebra_simps)

subsection \<open>The evaluation step\<close>

lemma elongate_loop:
  assumes "for_res (elongate dp rp pv kD) [0..<n] el = Inr el'"
  shows "length el' = length el \<and>
         (\<forall>i<n. \<exists>dl rl pl. rdp dp (int i) = Inr dl \<and> rdp rp (int i) = Inr rl \<and>
                   rd pv (int i) = Inr pl \<and> i < length el \<and>
                   el' ! i = dl * dl - rl * rl + (dl * dl - pl * pl) * kD) \<and>
         (\<forall>i. n \<le> i \<longrightarrow> el' ! i = el ! i)"
  using assms
proof (induction n arbitrary: el')
  case 0
  then show ?case by simp
next
  case (Suc n)
  from Suc.prems obtain em where em: "for_res (elongate dp rp pv kD) [0..<n] el = Inr em"
    and st: "elongate dp rp pv kD n em = Inr el'"
    unfolding for_res_Suc bnd_eq_Inr by blast
  note IH = Suc.IH [OF em]
  from st obtain dl rl pl where reads: "rdp dp (int n) = Inr dl" "rdp rp (int n) = Inr rl"
      "rd pv (int n) = Inr pl" and n: "n < length em"
    and el': "el' = em[n := dl * dl - rl * rl + (dl * dl - pl * pl) * kD]"
    by (auto simp: elongate_def bnd_eq_Inr split: if_splits)
  have len: "length el' = length el" using IH el' by simp
  have old: "\<forall>i<n. \<exists>dl rl pl. rdp dp (int i) = Inr dl \<and> rdp rp (int i) = Inr rl \<and>
                   rd pv (int i) = Inr pl \<and> i < length el \<and>
                   el' ! i = dl * dl - rl * rl + (dl * dl - pl * pl) * kD"
    using IH el' by simp
  have new: "\<exists>dl rl pl. rdp dp (int n) = Inr dl \<and> rdp rp (int n) = Inr rl \<and>
                   rd pv (int n) = Inr pl \<and> n < length el \<and>
                   el' ! n = dl * dl - rl * rl + (dl * dl - pl * pl) * kD"
    using reads n el' IH by simp
  have rest: "\<forall>i. Suc n \<le> i \<longrightarrow> el' ! i = el ! i"
    using IH el' by simp
  from old new have "\<forall>i<Suc n. \<exists>dl rl pl. rdp dp (int i) = Inr dl \<and> rdp rp (int i) = Inr rl \<and>
                   rd pv (int i) = Inr pl \<and> i < length el \<and>
                   el' ! i = dl * dl - rl * rl + (dl * dl - pl * pl) * kD"
    using less_Suc_eq by auto
  with len rest show ?case by blast
qed

lemma Compute_Inr:
  assumes "Compute h m d s = Inr (s', d')"
  shows "\<exists>adr pv el frc pv'.
           opt_timestep m \<noteq> 0 \<and>
           rd (flex_edgeadr m) (f0 s) = Inr adr \<and>
           init_prev (flexedge_length0 m, adr) s = Inr pv \<and>
           for_res (elongate (flexedge_length d, adr) (flexedge_length0 m, adr) pv
                      (damping s / opt_timestep m)) [0..<nat (ne s)] (elongation s) = Inr el \<and>
           ComputeForce h (force s) el m d (f0 s) = Inr frc \<and>
           (if damping s / opt_timestep m > 0
            then 0 \<le> ne s \<and> (\<exists>dls. slice (flexedge_length d) adr (nat (ne s)) = Inr dls \<and>
                    wr_block (pv, 0) 0 dls = Inr pv')
            else pv' = pv) \<and>
           s' = s\<lparr>elongation := el, force := frc, prev := pv'\<rparr>"
proof -
  have t: "opt_timestep m \<noteq> 0"
    using assms by (auto simp: Compute_def)
  from assms t obtain adr where adr: "rd (flex_edgeadr m) (f0 s) = Inr adr"
    by (cases "rd (flex_edgeadr m) (f0 s)") (simp_all add: Compute_def Let_def)
  from assms t adr obtain pv where pv: "init_prev (flexedge_length0 m, adr) s = Inr pv"
    by (cases "init_prev (flexedge_length0 m, adr) s") (simp_all add: Compute_def Let_def)
  let ?L = "for_res (elongate (flexedge_length d, adr) (flexedge_length0 m, adr) pv
                      (damping s / opt_timestep m)) [0..<nat (ne s)] (elongation s)"
  from assms t adr pv obtain el where el: "?L = Inr el"
    by (cases ?L) (simp_all add: Compute_def Let_def)
  from assms t adr pv el obtain vadr where vadr: "rd (flex_vertadr m) (f0 s) = Inr vadr"
    by (cases "rd (flex_vertadr m) (f0 s)") (simp_all add: Compute_def Let_def)
  from assms t adr pv el vadr obtain frc where frc: "ComputeForce h (force s) el m d (f0 s) = Inr frc"
    by (cases "ComputeForce h (force s) el m d (f0 s)") (simp_all add: Compute_def Let_def)
  let ?U = "update_prev (flexedge_length d, adr) pv (damping s / opt_timestep m) (ne s)"
  from assms t adr pv el vadr frc obtain pv' where u: "?U = Inr pv'"
    and s': "s' = s\<lparr>elongation := el, force := frc, prev := pv'\<rparr>"
    by (cases ?U) (auto simp add: Compute_def Let_def)
  have "if damping s / opt_timestep m > 0
            then 0 \<le> ne s \<and> (\<exists>dls. slice (flexedge_length d) adr (nat (ne s)) = Inr dls \<and>
                    wr_block (pv, 0) 0 dls = Inr pv')
            else pv' = pv"
    using u by (auto simp: update_prev_def bnd_eq_Inr split: if_splits)
  with t adr pv el frc s' show ?thesis by blast
qed

lemma init_prev_empty:
  assumes "init_prev ref s = Inr pv" and "prev s = []"
  shows "0 \<le> ne s \<and> slice (fst ref) (snd ref) (nat (ne s)) = Inr pv"
  using assms by (auto simp: init_prev_def split: if_splits)

lemma init_prev_nonempty: "prev s \<noteq> [] \<Longrightarrow> init_prev ref s = Inr (prev s)"
  by (simp add: init_prev_def)

lemma init_prev_length:
  assumes "init_prev ref s = Inr pv" and "prev s = [] \<or> length (prev s) = nat (ne s)"
  shows "length pv = nat (ne s)"
proof (cases "prev s = []")
  case True
  with assms(1) show ?thesis by (auto dest: init_prev_empty slice_length)
next
  case False
  with assms show ?thesis by (simp add: init_prev_nonempty)
qed

lemma Compute_prev_length:
  assumes "Compute h m d s = Inr (s', d')" and "prev s = [] \<or> length (prev s) = nat (ne s)"
  shows "ne s' = ne s \<and> length (elongation s') = length (elongation s) \<and>
         length (prev s') = nat (ne s)"
proof -
  from Compute_Inr [OF assms(1)] obtain adr pv el frc pv' where
    pv: "init_prev (flexedge_length0 m, adr) s = Inr pv"
    and el: "for_res (elongate (flexedge_length d, adr) (flexedge_length0 m, adr) pv
                      (damping s / opt_timestep m)) [0..<nat (ne s)] (elongation s) = Inr el"
    and up: "if damping s / opt_timestep m > 0
            then 0 \<le> ne s \<and> (\<exists>dls. slice (flexedge_length d) adr (nat (ne s)) = Inr dls \<and>
                    wr_block (pv, 0) 0 dls = Inr pv')
            else pv' = pv"
    and s': "s' = s\<lparr>elongation := el, force := frc, prev := pv'\<rparr>"
    by blast
  have lpv: "length pv = nat (ne s)" by (rule init_prev_length [OF pv assms(2)])
  have "length pv' = nat (ne s)"
  proof (cases "damping s / opt_timestep m > 0")
    case True
    with up obtain dls where dls: "slice (flexedge_length d) adr (nat (ne s)) = Inr dls"
      and w: "wr_block (pv, 0) 0 dls = Inr pv'" by auto
    from slice_length [OF dls] wr_block_whole [OF w] lpv show ?thesis by simp
  next
    case False
    with up lpv show ?thesis by simp
  qed
  moreover have "length el = length (elongation s)" using elongate_loop [OF el] by simp
  ultimately show ?thesis using s' by simp
qed

lemma element_force_zero:
  assumes "element_force h m d f el t frc = Inr frc'"
    and "\<forall>i<length el. el ! i = 0"
  shows "frc' = frc"
proof -
  from assms(1) obtain xs where
    xs: "for_res (\<lambda>e acc. bnd (rd el (elem_edge h m f t e)) (\<lambda>x. Inr (acc @ [x]))) [0..<kNumEdges] [] = Inr xs"
    and frc': "frc' = map (\<lambda>c. frc ! c + (\<Sum>e\<leftarrow>[0..<kNumEdges]. xs ! e * contraction h m d f t e c))
              [0..<length frc]"
    by (auto simp: element_force_def bnd_eq_Inr)
  from gather_loop [OF xs] have r: "\<forall>e<kNumEdges. rd el (elem_edge h m f t e) = Inr (xs ! e)"
    by simp
  have z: "\<forall>e<kNumEdges. xs ! e = 0"
  proof (intro allI impI)
    fix e assume "e < kNumEdges"
    with r have "rd el (elem_edge h m f t e) = Inr (xs ! e)" by simp
    then show "xs ! e = 0" using assms(2) by (auto simp: rd_eq_Inr)
  qed
  have "(\<Sum>e\<leftarrow>[0..<kNumEdges]. xs ! e * contraction h m d f t e c) = 0" for c
    using z by (simp add: kNumEdges_def upt_rec)
  then have "frc' = map (\<lambda>c. frc ! c) [0..<length frc]" using frc' by simp
  then show ?thesis by (simp add: map_nth)
qed

lemma ComputeForce_zero:
  assumes "ComputeForce h frc el m d f = Inr frc'"
    and "\<forall>i<length el. el ! i = 0"
  shows "frc' = replicate (length frc) 0"
proof -
  from assms(1) obtain nt where
    "for_res (element_force h m d f el) [0..<nat nt] (replicate (length frc) 0) = Inr frc'"
    by (auto simp: ComputeForce_def bnd_eq_Inr)
  then show ?thesis
  proof (rule for_res_invariant)
    show "replicate (length frc) 0 = replicate (length frc) (0::mjtNum)" by simp
  next
    fix i t t'
    assume "t = replicate (length frc) 0" and "element_force h m d f el i t = Inr t'"
    then show "t' = replicate (length frc) 0"
      using element_force_zero [OF _ assms(2)] by simp
  qed
qed

subsection \<open>The constructor\<close>

lemma allocate_Inr:
  assumes "allocate m b0 f n damp thick = Inr s"
  shows "0 \<le> ne s \<and> elongation s = replicate (nat (ne s)) 0 \<and> prev s = [] \<and>
         force s = replicate (nat (3 * nv s)) 0 \<and>
         damping s = damp \<and> thickness s = thick \<and> f0 s = f \<and> rd (flex_edgenum m) f = Inr (ne s)"
  using assms by (auto simp: allocate_def bnd_eq_Inr split: if_splits)

lemma Membrane_ctor_Inr:
  assumes "fst (Membrane_ctor h m instance nu E thick damp) = Inr s"
  shows "\<exists>b0 f n. allocate m b0 f n damp thick = Inr s"
proof (cases "locate m instance")
  case (Inl e)
  with assms show ?thesis by (simp add: Membrane_ctor_def)
next
  case (Inr loc)
  let ?r = "triangles h m instance nu E thick (fst (snd loc)) (flex_stiffness m)"
  show ?thesis
  proof (cases "snd ?r")
    case None
    with assms Inr have "allocate m (fst loc) (fst (snd loc)) (snd (snd loc)) damp thick = Inr s"
      by (simp add: Membrane_ctor_def Let_def)
    then show ?thesis by blast
  next
    case (Some e)
    with assms Inr show ?thesis by (simp add: Membrane_ctor_def Let_def)
  qed
qed

lemma reachable_inv: "reachable h s \<Longrightarrow> consistent s"
proof (induction rule: reachable.induct)
  case (built m inst nu E thick damp s)
  from Membrane_ctor_Inr [OF built] obtain b0 f n where "allocate m b0 f n damp thick = Inr s"
    by blast
  from allocate_Inr [OF this] show ?case by (simp add: consistent_def)
next
  case (step s m d s' d')
  from step.IH have p: "prev s = [] \<or> length (prev s) = nat (ne s)" by (simp add: consistent_def)
  from Compute_prev_length [OF step.hyps(2) p] step.IH show ?case by (simp add: consistent_def)
qed

lemma element_Inr:
  assumes "element h m k nu E thick f x el t stiff = Inr stiff'"
  shows "\<exists>dm volume basis eadr.
           rd (flex_dim m) f = Inr dm \<and>
           ComputeVolume x (fst el, snd el + (dm + 1) * int t) = Inr volume \<and>
           edge_bases h x (fst el, snd el + (dm + 1) * int t) volume = Inr basis \<and>
           rd (flex_elemadr m) f = Inr eadr \<and>
           2 * (1 + nu) \<noteq> 0 \<and> (1 + nu) * (1 - 2 * nu) \<noteq> 0 \<and>
           scan m k f (fst el, snd el + (dm + 1) * int t) = Inr () \<and>
           wr_block (stiff, 21 * eadr) (21 * int t)
             (element_tensor h (shear E nu volume thick) (dilation E nu volume thick) basis) =
             Inr stiff'"
proof -
  note A = assms [unfolded element_def Let_def bnd_eq_Inr]
  from A obtain dm where dm: "rd (flex_dim m) f = Inr dm"
    and B: "\<exists>u. scan m k f (fst el, snd el + (dm + 1) * int t) = Inr u \<and>
       (\<exists>volume. ComputeVolume x (fst el, snd el + (dm + 1) * int t) = Inr volume \<and>
       (if 2 * (1 + nu) = 0 \<or> (1 + nu) * (1 - 2 * nu) = 0 then Inl NonFinite
        else bnd (edge_bases h x (fst el, snd el + (dm + 1) * int t) volume) (\<lambda>basis.
            bnd (rd (flex_elemadr m) f) (\<lambda>eadr.
              MetricTensor h (stiff, 21 * eadr) t (shear E nu volume thick)
                (dilation E nu volume thick) basis))) = Inr stiff')"
    by blast
  from B obtain volume where sc: "scan m k f (fst el, snd el + (dm + 1) * int t) = Inr ()"
    and vol: "ComputeVolume x (fst el, snd el + (dm + 1) * int t) = Inr volume"
    and C: "(if 2 * (1 + nu) = 0 \<or> (1 + nu) * (1 - 2 * nu) = 0 then Inl NonFinite
        else bnd (edge_bases h x (fst el, snd el + (dm + 1) * int t) volume) (\<lambda>basis.
            bnd (rd (flex_elemadr m) f) (\<lambda>eadr.
              MetricTensor h (stiff, 21 * eadr) t (shear E nu volume thick)
                (dilation E nu volume thick) basis))) = Inr stiff'"
    by auto
  from C have nz: "2 * (1 + nu) \<noteq> 0" "(1 + nu) * (1 - 2 * nu) \<noteq> 0"
    by (auto split: if_splits)
  with C have "bnd (edge_bases h x (fst el, snd el + (dm + 1) * int t) volume) (\<lambda>basis.
            bnd (rd (flex_elemadr m) f) (\<lambda>eadr.
              MetricTensor h (stiff, 21 * eadr) t (shear E nu volume thick)
                (dilation E nu volume thick) basis)) = Inr stiff'"
    by (simp split: if_splits)
  then obtain basis eadr where
    bs: "edge_bases h x (fst el, snd el + (dm + 1) * int t) volume = Inr basis"
    and ea: "rd (flex_elemadr m) f = Inr eadr"
    and mt: "MetricTensor h (stiff, 21 * eadr) t (shear E nu volume thick)
                (dilation E nu volume thick) basis = Inr stiff'"
    unfolding bnd_eq_Inr by blast
  from dm sc vol nz bs ea mt show ?thesis unfolding MetricTensor_def by blast
qed

lemma element_eq:
  assumes "rd (flex_dim m) f = Inr dm"
    and "scan m k f (fst el, snd el + (dm + 1) * int t) = Inr ()"
    and "ComputeVolume x (fst el, snd el + (dm + 1) * int t) = Inr volume"
    and "2 * (1 + nu) \<noteq> 0" and "(1 + nu) * (1 - 2 * nu) \<noteq> 0"
    and "edge_bases h x (fst el, snd el + (dm + 1) * int t) volume = Inr basis"
    and "rd (flex_elemadr m) f = Inr eadr"
  shows "element h m k nu E thick f x el t stiff =
           wr_block (stiff, 21 * eadr) (21 * int t)
             (element_tensor h (shear E nu volume thick) (dilation E nu volume thick) basis)"
  using assms by (simp add: element_def Let_def MetricTensor_def)

lemma element_scan_fails:
  assumes "rd (flex_dim m) f = Inr dm"
    and "scan m k f (fst el, snd el + (dm + 1) * int t) = Inl e"
  shows "element h m k nu E thick f x el t stiff = Inl e"
  using assms by (simp add: element_def Let_def)

lemma Membrane_ctor_CheckAttr:
  "Membrane_ctor (h\<lparr>CheckAttr := chk\<rparr>) m k nu E thick damp = Membrane_ctor h m k nu E thick damp"
proof -
  have 0: "edge_basis (h\<lparr>CheckAttr := chk\<rparr>) = edge_basis h"
    by (intro ext) (simp add: edge_basis_def)
  have 1: "edge_bases (h\<lparr>CheckAttr := chk\<rparr>) = edge_bases h"
    by (intro ext) (simp add: edge_bases_def 0)
  have 2: "MetricTensor (h\<lparr>CheckAttr := chk\<rparr>) = MetricTensor h"
    by (intro ext) (simp add: MetricTensor_def element_tensor_def)
  have 3: "element (h\<lparr>CheckAttr := chk\<rparr>) = element h"
    by (intro ext) (simp only: element_def 1 2)
  have 4: "triangles (h\<lparr>CheckAttr := chk\<rparr>) = triangles h"
    by (intro ext) (simp only: triangles_def 3)
  show ?thesis by (simp only: Membrane_ctor_def 4)
qed

subsection \<open>Where the fatal error comes from\<close>

lemma no_mju_Inr [simp]: "no_mju (Inr x)"
  by (simp add: no_mju_def)

lemma no_mju_other [simp]:
  "no_mju (Inl OutOfRange)" "no_mju (Inl NonFinite)" "no_mju (Inl LengthError)"
  "no_mju (Inl Uninitialized)"
  by (simp_all add: no_mju_def)

lemma no_mju_bnd: "no_mju r \<Longrightarrow> (\<And>x. no_mju (f x)) \<Longrightarrow> no_mju (bnd r f)"
  by (cases r) (simp_all add: no_mju_def)

lemma no_mju_rd [simp]: "no_mju (rd xs i)"
  by (simp add: rd_def)

lemma no_mju_rdp [simp]: "no_mju (rdp p i)"
  by (simp add: rdp_def)

lemma no_mju_for_res: "(\<And>i t. no_mju (body i t)) \<Longrightarrow> no_mju (for_res body is s)"
proof (induction "is" arbitrary: s)
  case Nil
  show ?case by simp
next
  case (Cons i "is")
  show ?case unfolding for_res_Cons
    by (rule no_mju_bnd) (simp_all add: Cons)
qed

lemma no_mju_rd3 [simp]: "no_mju (rd3 x i)"
  unfolding rd3_def by (intro no_mju_bnd no_mju_rdp no_mju_Inr)

lemma no_mju_vertex [simp]: "no_mju (vertex x v k)"
  unfolding vertex_def by (intro no_mju_bnd no_mju_rdp no_mju_rd3)

lemma no_mju_ComputeVolume [simp]: "no_mju (ComputeVolume x v)"
  unfolding ComputeVolume_def Let_def by (intro no_mju_bnd no_mju_vertex no_mju_Inr)

lemma no_mju_normalize3 [simp]: "no_mju (mju_normalize3 a)"
  by (simp add: mju_normalize3_def Let_def)

lemma no_mju_ComputeBasis [simp]: "no_mju (ComputeBasis x v faceL faceR area)"
  unfolding ComputeBasis_def Let_def
  by (intro no_mju_bnd no_mju_vertex no_mju_normalize3) simp

lemma no_mju_edge_bases [simp]: "no_mju (edge_bases h x v volume)"
  unfolding edge_bases_def edge_basis_def
  by (intro no_mju_for_res no_mju_bnd no_mju_rd no_mju_ComputeBasis) simp

lemma no_mju_wr_block [simp]: "no_mju (wr_block p i ys)"
  by (simp add: wr_block_def Let_def)

lemma no_mju_locate [simp]: "no_mju (locate m k)"
  unfolding locate_def count_body_def count_flex_def flex_vert_def
  by (intro no_mju_bnd no_mju_for_res no_mju_rd) (simp_all split: option.splits add: no_mju_bnd)

lemma no_mju_allocate [simp]: "no_mju (allocate m b0 f n damp thick)"
  unfolding allocate_def by (intro no_mju_bnd no_mju_rd) simp

lemma bnd_MjuError_right:
  assumes "bnd r f = Inl (MjuError b k)" and "no_mju r"
  shows "\<exists>x. r = Inr x \<and> f x = Inl (MjuError b k)"
  using assms by (cases r) (auto simp: no_mju_def)

lemma bnd_MjuError_left:
  assumes "bnd r f = Inl (MjuError b k)" and "\<And>x. no_mju (f x)"
  shows "r = Inl (MjuError b k)"
proof (cases r)
  case (Inl e)
  with assms(1) show ?thesis by simp
next
  case (Inr x)
  with assms(1) assms(2) [of x] show ?thesis by (simp add: no_mju_def)
qed

lemma check_vertex_cases:
  "check_vertex m k f v i u = Inl OutOfRange \<or> check_vertex m k f v i u = Inr () \<or>
   (\<exists>b p. vertex_body m f v i = Inr b \<and> b \<noteq> 0 \<and> rd (body_plugin m) b = Inr p \<and> p \<noteq> k \<and>
          check_vertex m k f v i u = Inl (MjuError b k))"
  by (auto simp: check_vertex_def vertex_body_def rd_def rdp_def bnd_def split: sum.splits)

lemma check_vertex_MjuError:
  assumes "check_vertex m k f v i u = Inl (MjuError b k')"
  shows "k' = k \<and> b \<noteq> 0 \<and> vertex_body m f v i = Inr b \<and>
         (\<exists>p. rd (body_plugin m) b = Inr p \<and> p \<noteq> k)"
  using assms check_vertex_cases [of m k f v i u] by auto

lemma check_vertex_in_range:
  assumes "vertex_body m f v j = Inr bj" and "bj = 0 \<or> (\<exists>q. rd (body_plugin m) bj = Inr q)"
  shows "check_vertex m k f v j () = Inr () \<or>
         (\<exists>b. b \<noteq> 0 \<and> check_vertex m k f v j () = Inl (MjuError b k))"
proof (cases "bj = 0")
  case True
  with assms(1) show ?thesis by (simp add: check_vertex_def)
next
  case False
  with assms(2) obtain q where q: "rd (body_plugin m) bj = Inr q" by blast
  show ?thesis
  proof (cases "q = k")
    case True
    with assms(1) False q show ?thesis by (simp add: check_vertex_def)
  next
    case neq: False
    with assms(1) False q have "check_vertex m k f v j () = Inl (MjuError bj k)"
      by (simp add: check_vertex_def)
    with False show ?thesis by blast
  qed
qed

lemma scan_MjuError:
  assumes "scan m k f v = Inl (MjuError b k')"
  shows "\<exists>i<kNumVerts. k' = k \<and> b \<noteq> 0 \<and> vertex_body m f v i = Inr b \<and>
         (\<exists>p. rd (body_plugin m) b = Inr p \<and> p \<noteq> k)"
proof -
  from for_res_Inl [OF assms [unfolded scan_def]] obtain i u where
    "i < kNumVerts" "check_vertex m k f v i u = Inl (MjuError b k')" by auto
  with check_vertex_MjuError show ?thesis by blast
qed

lemma scan_offending:
  assumes "\<forall>j<kNumVerts. \<exists>bj. vertex_body m f v j = Inr bj \<and>
              (bj = 0 \<or> (\<exists>q. rd (body_plugin m) bj = Inr q))"
    and "i < kNumVerts" and "vertex_body m f v i = Inr bi" and "bi \<noteq> 0"
    and "rd (body_plugin m) bi = Inr p" and "p \<noteq> k"
  shows "\<exists>b. b \<noteq> 0 \<and> scan m k f v = Inl (MjuError b k)"
  unfolding scan_def
proof (rule for_res_first_failure [where i = i])
  show "i \<in> set [0..<kNumVerts]" using assms(2) by simp
  show "\<exists>b. b \<noteq> 0 \<and> check_vertex m k f v i () = Inl (MjuError b k)"
    using assms(3-6) by (auto simp: check_vertex_def)
  show "\<forall>j\<in>set [0..<kNumVerts]. check_vertex m k f v j () = Inr () \<or>
          (\<exists>b. b \<noteq> 0 \<and> check_vertex m k f v j () = Inl (MjuError b k))"
    using assms(1) check_vertex_in_range by (metis atLeastLessThan_iff set_upt)
  show "\<And>r. \<exists>b. b \<noteq> 0 \<and> r = Inl (MjuError b k) \<Longrightarrow> isl r" by auto
qed

lemma element_MjuError:
  assumes "element h m k nu E thick f x el t stiff = Inl (MjuError b k')"
  shows "\<exists>dim. rd (flex_dim m) f = Inr dim \<and>
           scan m k f (fst el, snd el + (dim + 1) * int t) = Inl (MjuError b k')"
proof -
  note A = assms [unfolded element_def Let_def]
  from bnd_MjuError_right [OF A no_mju_rd] obtain dim where dim: "rd (flex_dim m) f = Inr dim"
    and B: "bnd (scan m k f (fst el, snd el + (dim + 1) * int t)) (\<lambda>u.
     bnd (ComputeVolume x (fst el, snd el + (dim + 1) * int t)) (\<lambda>volume.
       if 2 * (1 + nu) = 0 \<or> (1 + nu) * (1 - 2 * nu) = 0 then Inl NonFinite
       else bnd (edge_bases h x (fst el, snd el + (dim + 1) * int t) volume) (\<lambda>basis.
            bnd (rd (flex_elemadr m) f) (\<lambda>eadr.
              MetricTensor h (stiff, 21 * eadr) t (shear E nu volume thick)
                (dilation E nu volume thick) basis)))) = Inl (MjuError b k')"
    by blast
  have "scan m k f (fst el, snd el + (dim + 1) * int t) = Inl (MjuError b k')"
  proof (rule bnd_MjuError_left [OF B])
    fix u
    show "no_mju (bnd (ComputeVolume x (fst el, snd el + (dim + 1) * int t)) (\<lambda>volume.
       if 2 * (1 + nu) = 0 \<or> (1 + nu) * (1 - 2 * nu) = 0 then Inl NonFinite
       else bnd (edge_bases h x (fst el, snd el + (dim + 1) * int t) volume) (\<lambda>basis.
            bnd (rd (flex_elemadr m) f) (\<lambda>eadr.
              MetricTensor h (stiff, 21 * eadr) t (shear E nu volume thick)
                (dilation E nu volume thick) basis))))"
      by (intro no_mju_bnd no_mju_ComputeVolume) (simp add: no_mju_bnd MetricTensor_def)
  qed
  with dim show ?thesis by blast
qed

lemma triangles_MjuError:
  assumes "snd (triangles h m k nu E thick f stiff) = Some (MjuError b k')"
  shows "\<exists>v. \<exists>i<kNumVerts. k' = k \<and> b \<noteq> 0 \<and> vertex_body m f v i = Inr b \<and>
         (\<exists>p. rd (body_plugin m) b = Inr p \<and> p \<noteq> k)"
proof -
  let ?g = "bnd (rd (flex_vertadr m) f) (\<lambda>vadr. bnd (rd (flex_elemdataadr m) f) (\<lambda>edadr.
           bnd (rd (flex_elemnum m) f) (\<lambda>nt. Inr (vadr, edadr, nt))))"
  have ng: "no_mju ?g" by (intro no_mju_bnd no_mju_rd no_mju_Inr)
  show ?thesis
  proof (cases ?g)
    case (Inl e)
    with assms ng show ?thesis by (auto simp: triangles_def no_mju_def)
  next
    case (Inr g)
    let ?body = "element h m k nu E thick f (flex_xvert0 m, 3 * fst g) (flex_elem m, fst (snd g))"
    from assms Inr obtain st where "for_loop ?body [0..<nat (snd (snd g))] stiff = (st, Some (MjuError b k'))"
      by (cases "for_loop ?body [0..<nat (snd (snd g))] stiff") (simp add: triangles_def)
    from for_loop_Some [OF this] obtain t s' where "?body t s' = Inl (MjuError b k')" by blast
    from element_MjuError [OF this] obtain dim where
      "scan m k f (flex_elem m, fst (snd g) + (dim + 1) * int t) = Inl (MjuError b k')" by auto
    from scan_MjuError [OF this] show ?thesis by blast
  qed
qed

lemma Membrane_ctor_MjuError:
  assumes "fst (Membrane_ctor h m k nu E thick damp) = Inl (MjuError b k')"
  shows "\<exists>f v. \<exists>i<kNumVerts. k' = k \<and> b \<noteq> 0 \<and> vertex_body m f v i = Inr b \<and>
         (\<exists>p. rd (body_plugin m) b = Inr p \<and> p \<noteq> k)"
proof (cases "locate m k")
  case (Inl e)
  with assms no_mju_locate [of m k] show ?thesis by (simp add: Membrane_ctor_def no_mju_def)
next
  case (Inr loc)
  let ?r = "triangles h m k nu E thick (fst (snd loc)) (flex_stiffness m)"
  show ?thesis
  proof (cases "snd ?r")
    case None
    with assms Inr no_mju_allocate [of m "fst loc" "fst (snd loc)" "snd (snd loc)" damp thick]
    show ?thesis by (simp add: Membrane_ctor_def Let_def no_mju_def)
  next
    case (Some e)
    with assms Inr have "snd ?r = Some (MjuError b k')" by (simp add: Membrane_ctor_def Let_def)
    from triangles_MjuError [OF this] show ?thesis by blast
  qed
qed

subsection \<open>The examples, evaluated\<close>

lemma sqrt_144: "sqrt 144 = 12"
  by (rule real_sqrt_unique) simp_all

lemmas eval_defs = Membrane_ctor_def locate_def for_res_def count_body_def count_flex_def flex_vert_def rd_def rdp_def rd3_def vertex_def upt_rec
     triangles_def element_def scan_def check_vertex_def vertex_body_def kNumVerts_def kNumEdges_def ComputeVolume_def shear_def dilation_def mju_abs_def edge_bases_def edge_basis_def
     ComputeBasis_def mju_normalize3_def basis_entries_def MetricTensor_def element_tensor_def wr_block_def allocate_def sqrt_144 numeral_3_eq_3

lemmas step_defs = Compute_def Let_def init_prev_def slice_def elongate_def for_res_def rd_def
  rdp_def upt_rec ComputeForce_def element_force_def update_prev_def wr_block_def kNumEdges_def
  numeral_3_eq_3

lemma all_verts: "(\<forall>j<kNumVerts. P j) \<longleftrightarrow> P 0 \<and> P 1 \<and> P 2"
proof -
  have "j < kNumVerts \<longleftrightarrow> j = 0 \<or> j = 1 \<or> j = 2" for j
    by (auto simp: kNumVerts_def)
  then show ?thesis by auto
qed

lemma ctor_pinned:
  "Membrane_ctor std_host pinned 0 (1 / 4) 1000 (1 / 100) damp =
     (Inr (built damp), flex_stiffness pinned_built)"
  by (simp add: eval_defs pinned_def pinned_built_def std_host_def built_def)

lemma element_pinned:
  "element std_host pinned 0 (1 / 4) 1000 thick 0 (flex_xvert0 pinned, 0) (flex_elem pinned, 0) 0
     (flex_stiffness pinned) = Inr (25 * thick # - (200 * thick / 3) # replicate 19 0)"
  by (simp add: eval_defs pinned_def std_host_def)

lemma Compute_stretched_damped:
  "Compute std_host pinned_built stretched (built (1 / 10)) =
     Inr (stepped (1 / 10) [357, 0, 0] [0, 0, 0, 357, 0, 0, 0, 357, 0] [4, 5, 4],
          stretched\<lparr>qfrc_passive := [1, 1, 1, 358, 1, 1, 1, 358, 1]\<rparr>)"
  by (simp add: step_defs built_def stepped_def pinned_def pinned_built_def stretched_def
        std_host_def)

lemma Compute_stretched_undamped:
  "Compute std_host pinned_built stretched (built 0) =
     Inr (stepped 0 [7, 0, 0] [0, 0, 0, 7, 0, 0, 0, 7, 0] [3, 5, 4],
          stretched\<lparr>qfrc_passive := [1, 1, 1, 8, 1, 1, 1, 8, 1]\<rparr>)"
  by (simp add: step_defs built_def stepped_def pinned_def pinned_built_def stretched_def
        std_host_def)

lemma reachable_built: "reachable std_host (built damp)"
  by (rule reachable.built [of std_host pinned 0 "1 / 4" 1000 "1 / 100" damp])
    (simp add: ctor_pinned)

lemma Compute_rest_after_stretch:
  "Compute std_host pinned_built rest_pose
     (stepped (1 / 10) [357, 0, 0] [0, 0, 0, 357, 0, 0, 0, 357, 0] [4, 5, 4]) =
     Inr (stepped (1 / 10) [- 350, 0, 0] [0, 0, 0, - (525 / 2), 0, 0, 0, - 350, 0] [3, 5, 4],
          rest_pose\<lparr>qfrc_passive := [1, 1, 1, - (523 / 2), 1, 1, 1, - 349, 1]\<rparr>)"
  by (simp add: step_defs built_def stepped_def pinned_def pinned_built_def rest_pose_def
        std_host_def)

lemma Compute_rest_again:
  "Compute std_host pinned_built rest_pose
     (stepped (1 / 10) [- 350, 0, 0] [0, 0, 0, - (525 / 2), 0, 0, 0, - 350, 0] [3, 5, 4]) =
     Inr (stepped (1 / 10) [0, 0, 0] [0, 0, 0, 0, 0, 0, 0, 0, 0] [3, 5, 4], rest_pose)"
  by (simp add: step_defs built_def stepped_def pinned_def pinned_built_def rest_pose_def
        std_host_def)

lemma Compute_zero_timestep:
  "Compute std_host (pinned_built\<lparr>opt_timestep := 0\<rparr>) rest_pose (built damp) = Inl NonFinite"
  by (simp add: Compute_def)

lemma Compute_negative:
  "Compute std_host (pinned_built\<lparr>opt_timestep := - (1 / 2)\<rparr>) stretched (built (- (1 / 2))) =
     Inr (stepped (- (1 / 2)) [14, 0, 0] [0, 0, 0, 14, 0, 0, 0, 14, 0] [4, 5, 4],
          stretched\<lparr>qfrc_passive := [1, 1, 1, 15, 1, 1, 1, 15, 1]\<rparr>)"
  by (simp add: step_defs built_def stepped_def pinned_def pinned_built_def stretched_def
        std_host_def)

lemma edgeadr_pinned: "rd (flex_edgeadr pinned_built) (f0 (built damp)) = Inr 0"
  by (simp add: rd_def pinned_built_def pinned_def built_def)

lemma init_prev_built:
  "init_prev (flexedge_length0 pinned_built, 0) (built damp) = Inr [3, 5, 4]"
  by (simp add: init_prev_def slice_def pinned_built_def pinned_def built_def)

lemma locate_foreign: "locate foreign 0 = Inr (Some 1, 0, 4)"
  by (simp add: eval_defs foreign_def)

lemma first_triangle_foreign:
  "for_loop (element std_host foreign 0 (1 / 4) 1000 (1 / 100) 0
               (flex_xvert0 foreign, 3 * 0) (flex_elem foreign, 0))
     [0..<1] (flex_stiffness foreign) = (1 / 4 # - (2 / 3) # replicate 40 0, None)"
  by (simp add: eval_defs foreign_def std_host_def)

lemma ctor_foreign:
  "Membrane_ctor std_host foreign 0 (1 / 4) 1000 (1 / 100) damp =
     (Inl (MjuError 4 0), 1 / 4 # - (2 / 3) # replicate 40 0)"
  by (simp add: eval_defs foreign_def std_host_def)

section \<open>The claims\<close>

text \<open>
  Claim C1. In an evaluation step that returns, the elongation of every tracked edge \<open>idx\<close>
  is d * d - r * r + (d * d - p * p) * (damping / timestep) for its deformed length d, its
  reference length r and its previous length p, the previous length being the one the step
  uses (the reference length on the first step);
  with damping 0 it is d * d - r * r, whatever the three lengths are.
\<close>

theorem elongation_formula:
  assumes "Compute h m d s = Inr (s', d')"
    and "rd (flex_edgeadr m) (f0 s) = Inr adr"
    and "init_prev (flexedge_length0 m, adr) s = Inr pv"
    and "idx < nat (ne s)"
  shows "elongation s' ! idx =
           flexedge_length d ! nat (adr + int idx) * flexedge_length d ! nat (adr + int idx) -
           flexedge_length0 m ! nat (adr + int idx) * flexedge_length0 m ! nat (adr + int idx) +
           (flexedge_length d ! nat (adr + int idx) * flexedge_length d ! nat (adr + int idx) -
            pv ! idx * pv ! idx) * (damping s / opt_timestep m) \<and>
         (damping s = 0 \<longrightarrow>
            elongation s' ! idx =
              flexedge_length d ! nat (adr + int idx) * flexedge_length d ! nat (adr + int idx) -
              flexedge_length0 m ! nat (adr + int idx) * flexedge_length0 m ! nat (adr + int idx))"
proof -
  from Compute_Inr [OF assms(1)] assms(2,3) obtain el frc pv' where
    el: "for_res (elongate (flexedge_length d, adr) (flexedge_length0 m, adr) pv
                      (damping s / opt_timestep m)) [0..<nat (ne s)] (elongation s) = Inr el"
    and s': "s' = s\<lparr>elongation := el, force := frc, prev := pv'\<rparr>"
    by auto
  from elongate_loop [OF el] assms(4) obtain dl rl pl where
    "rdp (flexedge_length d, adr) (int idx) = Inr dl"
    "rdp (flexedge_length0 m, adr) (int idx) = Inr rl"
    "rd pv (int idx) = Inr pl"
    "el ! idx = dl * dl - rl * rl + (dl * dl - pl * pl) * (damping s / opt_timestep m)"
    by blast
  then show ?thesis using s' by (simp add: rdp_def rd_eq_Inr)
qed

theorem elongation_formula_witness:
  "Compute std_host pinned_built stretched (built (1 / 10)) =
     Inr (stepped (1 / 10) [357, 0, 0] [0, 0, 0, 357, 0, 0, 0, 357, 0] [4, 5, 4],
          stretched\<lparr>qfrc_passive := [1, 1, 1, 358, 1, 1, 1, 358, 1]\<rparr>) \<and>
   rd (flex_edgeadr pinned_built) (f0 (built (1 / 10))) = Inr 0 \<and>
   init_prev (flexedge_length0 pinned_built, 0) (built (1 / 10)) = Inr [3, 5, 4] \<and>
   (0::nat) < nat (ne (built (1 / 10))) \<and>
   elongation (stepped (1 / 10) [357, 0, 0] [0, 0, 0, 357, 0, 0, 0, 357, 0] [4, 5, 4]) ! 0 =
     4 * 4 - 3 * 3 + (4 * 4 - 3 * 3) * ((1 / 10) / (1 / 500)) \<and>
   damping (built 0) = 0 \<and>
   elongation (stepped 0 [7, 0, 0] [0, 0, 0, 7, 0, 0, 0, 7, 0] [3, 5, 4]) ! 0 = 4 * 4 - 3 * 3"
proof -
  have n: "(0::nat) < nat (ne (built damp))" for damp by (simp add: built_def)
  have z: "damping (built 0) = 0" by (simp add: built_def)
  note a = elongation_formula [OF Compute_stretched_damped edgeadr_pinned init_prev_built n]
  note b = elongation_formula [OF Compute_stretched_undamped edgeadr_pinned init_prev_built n]
  have d: "flexedge_length stretched ! nat (0 + int 0) = 4"
    "flexedge_length0 pinned_built ! nat (0 + int 0) = 3" "[3, 5, 4::mjtNum] ! 0 = 3"
    "damping (built (1 / 10)) = 1 / 10" "opt_timestep pinned_built = 1 / 500"
    by (simp_all add: stretched_def pinned_built_def pinned_def built_def)
  from a have "elongation (stepped (1 / 10) [357, 0, 0] [0, 0, 0, 357, 0, 0, 0, 357, 0] [4, 5, 4]) ! 0 =
     4 * 4 - 3 * 3 + (4 * 4 - 3 * 3) * ((1 / 10) / (1 / 500))"
    unfolding d by simp
  moreover from b z
  have "elongation (stepped 0 [7, 0, 0] [0, 0, 0, 7, 0, 0, 0, 7, 0] [3, 5, 4]) ! 0 = 4 * 4 - 3 * 3"
    unfolding d by simp
  ultimately show ?thesis
    using Compute_stretched_damped edgeadr_pinned init_prev_built n z by simp
qed

text \<open>
  Claim C2. The shear coefficient is E / (2 (1 + nu)) * |area| / 4 * thickness and the
  dilation coefficient is E nu / ((1 + nu) (1 - 2 nu)) * |area| / 4 * thickness. Doubling
  the thickness doubles both, and doubles every entry of the tensor of an element: the
  loop body for a triangle, run with twice the thickness, writes the doubled entries at the
  same place.
\<close>

theorem thickness_linear:
  "shear E nu volume thick = E / (2 * (1 + nu)) * \<bar>volume\<bar> / 4 * thick \<and>
   dilation E nu volume thick = E * nu / ((1 + nu) * (1 - 2 * nu)) * \<bar>volume\<bar> / 4 * thick \<and>
   shear E nu volume (2 * thick) = 2 * shear E nu volume thick \<and>
   dilation E nu volume (2 * thick) = 2 * dilation E nu volume thick \<and>
   element_tensor h (shear E nu volume (2 * thick)) (dilation E nu volume (2 * thick)) basis =
     map (\<lambda>c. 2 * c)
       (element_tensor h (shear E nu volume thick) (dilation E nu volume thick) basis) \<and>
   (element h m instance nu E thick f x el t stiff = Inr stiff' \<longrightarrow>
      (\<exists>dm area bs eadr.
         rd (flex_dim m) f = Inr dm \<and> rd (flex_elemadr m) f = Inr eadr \<and>
         ComputeVolume x (fst el, snd el + (dm + 1) * int t) = Inr area \<and>
         edge_bases h x (fst el, snd el + (dm + 1) * int t) area = Inr bs \<and>
         wr_block (stiff, 21 * eadr) (21 * int t)
           (element_tensor h (shear E nu area thick) (dilation E nu area thick) bs) =
           Inr stiff' \<and>
         element h m instance nu E (2 * thick) f x el t stiff =
           wr_block (stiff, 21 * eadr) (21 * int t)
             (map (\<lambda>c. 2 * c)
                (element_tensor h (shear E nu area thick) (dilation E nu area thick) bs))))"
proof -
  have 1: "shear E nu volume thick = E / (2 * (1 + nu)) * \<bar>volume\<bar> / 4 * thick"
    by (simp add: shear_def mju_abs_def)
  have 2: "dilation E nu volume thick =
             E * nu / ((1 + nu) * (1 - 2 * nu)) * \<bar>volume\<bar> / 4 * thick"
    by (simp add: dilation_def mju_abs_def)
  have 3: "element_tensor h (shear E nu volume (2 * thick)) (dilation E nu volume (2 * thick))
             basis =
           map (\<lambda>c. 2 * c)
             (element_tensor h (shear E nu volume thick) (dilation E nu volume thick) basis)"
    by (simp only: doubling)
  have 4: "\<exists>dm area bs eadr.
         rd (flex_dim m) f = Inr dm \<and> rd (flex_elemadr m) f = Inr eadr \<and>
         ComputeVolume x (fst el, snd el + (dm + 1) * int t) = Inr area \<and>
         edge_bases h x (fst el, snd el + (dm + 1) * int t) area = Inr bs \<and>
         wr_block (stiff, 21 * eadr) (21 * int t)
           (element_tensor h (shear E nu area thick) (dilation E nu area thick) bs) =
           Inr stiff' \<and>
         element h m instance nu E (2 * thick) f x el t stiff =
           wr_block (stiff, 21 * eadr) (21 * int t)
             (map (\<lambda>c. 2 * c)
                (element_tensor h (shear E nu area thick) (dilation E nu area thick) bs))"
    if a: "element h m instance nu E thick f x el t stiff = Inr stiff'"
  proof -
    from element_Inr [OF a] obtain dm area bs eadr where
      r: "rd (flex_dim m) f = Inr dm" "rd (flex_elemadr m) f = Inr eadr"
      and v: "ComputeVolume x (fst el, snd el + (dm + 1) * int t) = Inr area"
      and b: "edge_bases h x (fst el, snd el + (dm + 1) * int t) area = Inr bs"
      and nz: "2 * (1 + nu) \<noteq> 0" "(1 + nu) * (1 - 2 * nu) \<noteq> 0"
      and sc: "scan m instance f (fst el, snd el + (dm + 1) * int t) = Inr ()"
      and w: "wr_block (stiff, 21 * eadr) (21 * int t)
           (element_tensor h (shear E nu area thick) (dilation E nu area thick) bs) =
           Inr stiff'"
      by blast
    have "element h m instance nu E (2 * thick) f x el t stiff =
           wr_block (stiff, 21 * eadr) (21 * int t)
             (map (\<lambda>c. 2 * c)
                (element_tensor h (shear E nu area thick) (dilation E nu area thick) bs))"
      unfolding element_eq [OF r(1) sc v nz b r(2)] by (simp only: doubling)
    with r v b w show ?thesis by blast
  qed
  from 1 2 3 4 show ?thesis by (simp only: doubling) blast
qed

theorem thickness_linear_witness:
  "element std_host pinned 0 (1 / 4) 1000 (1 / 100) 0 (flex_xvert0 pinned, 0) (flex_elem pinned, 0)
     0 (flex_stiffness pinned) = Inr (1 / 4 # - (2 / 3) # replicate 19 0) \<and>
   element std_host pinned 0 (1 / 4) 1000 (2 * (1 / 100)) 0 (flex_xvert0 pinned, 0)
     (flex_elem pinned, 0) 0 (flex_stiffness pinned) =
     Inr (2 * (1 / 4) # 2 * - (2 / 3) # replicate 19 0)"
proof -
  have a: "element std_host pinned 0 (1 / 4) 1000 (1 / 100) 0 (flex_xvert0 pinned, 0)
     (flex_elem pinned, 0) 0 (flex_stiffness pinned) = Inr (1 / 4 # - (2 / 3) # replicate 19 0)"
    using element_pinned [of "1 / 100"] by simp
  from thickness_linear [of 1000 "1 / 4" 0 "1 / 100" std_host "[]" pinned 0 0
     "(flex_xvert0 pinned, 0)" "(flex_elem pinned, 0)" 0 "flex_stiffness pinned"
     "1 / 4 # - (2 / 3) # replicate 19 0"] a
  obtain dm area bs eadr where
    w: "wr_block (flex_stiffness pinned, 21 * eadr) (21 * int 0)
           (element_tensor std_host (shear 1000 (1 / 4) area (1 / 100))
              (dilation 1000 (1 / 4) area (1 / 100)) bs) =
           Inr (1 / 4 # - (2 / 3) # replicate 19 0)"
    and e: "element std_host pinned 0 (1 / 4) 1000 (2 * (1 / 100)) 0 (flex_xvert0 pinned, 0)
              (flex_elem pinned, 0) 0 (flex_stiffness pinned) =
           wr_block (flex_stiffness pinned, 21 * eadr) (21 * int 0)
             (map (\<lambda>c. 2 * c)
                (element_tensor std_host (shear 1000 (1 / 4) area (1 / 100))
                   (dilation 1000 (1 / 4) area (1 / 100)) bs))"
    by (simp only: fst_conv snd_conv) blast
  have "element std_host pinned 0 (1 / 4) 1000 (2 * (1 / 100)) 0 (flex_xvert0 pinned, 0)
     (flex_elem pinned, 0) 0 (flex_stiffness pinned) =
     Inr (2 * (1 / 4) # 2 * - (2 / 3) # replicate 19 0)"
    using element_pinned [of "2 * (1 / 100)"] by simp
  with a show ?thesis by simp
qed

text \<open>
  Claim C3, as the code has it. \<open>Create\<close> returns no instance exactly when \<open>CheckAttr\<close>
  rejects one of \<open>face\<close>, \<open>poisson\<close>, \<open>young\<close>, \<open>thickness\<close>; it then warns and leaves the
  stiffness storage as it was. When the four pass, the constructor runs on the four parsed
  numbers and \<open>Create\<close> returns its instance, or stops with the constructor's failure.
  What \<open>CheckAttr\<close> says of \<open>damping\<close> and \<open>edge\<close> does not matter: \<open>damping\<close> is read by
  \<open>strtod\<close> unchecked and \<open>edge\<close> is not read.
\<close>

theorem Create_checks:
  "(fst (Create h m instance) = Inr None \<longleftrightarrow>
      \<not> (CheckAttr h ''face'' m instance \<and> CheckAttr h ''poisson'' m instance \<and>
         CheckAttr h ''young'' m instance \<and> CheckAttr h ''thickness'' m instance)) \<and>
   (\<not> (CheckAttr h ''face'' m instance \<and> CheckAttr h ''poisson'' m instance \<and>
       CheckAttr h ''young'' m instance \<and> CheckAttr h ''thickness'' m instance) \<longrightarrow>
      Create h m instance =
        (Inr None, flex_stiffness m, [''Invalid parameter specification in shell plugin''])) \<and>
   (CheckAttr h ''face'' m instance \<and> CheckAttr h ''poisson'' m instance \<and>
    CheckAttr h ''young'' m instance \<and> CheckAttr h ''thickness'' m instance \<longrightarrow>
      Create h m instance =
        (bnd (fst (Membrane_ctor h m instance
                     (strtod h (mj_getPluginConfig h m instance ''poisson''))
                     (strtod h (mj_getPluginConfig h m instance ''young''))
                     (strtod h (mj_getPluginConfig h m instance ''thickness''))
                     (strtod h (mj_getPluginConfig h m instance ''damping''))))
           (\<lambda>s. Inr (Some s)),
         snd (Membrane_ctor h m instance
                (strtod h (mj_getPluginConfig h m instance ''poisson''))
                (strtod h (mj_getPluginConfig h m instance ''young''))
                (strtod h (mj_getPluginConfig h m instance ''thickness''))
                (strtod h (mj_getPluginConfig h m instance ''damping''))),
         [])) \<and>
   (chk ''face'' m instance = CheckAttr h ''face'' m instance \<and>
    chk ''poisson'' m instance = CheckAttr h ''poisson'' m instance \<and>
    chk ''young'' m instance = CheckAttr h ''young'' m instance \<and>
    chk ''thickness'' m instance = CheckAttr h ''thickness'' m instance \<longrightarrow>
      Create (h\<lparr>CheckAttr := chk\<rparr>) m instance = Create h m instance)"
proof -
  let ?ok = "CheckAttr h ''face'' m instance \<and> CheckAttr h ''poisson'' m instance \<and>
             CheckAttr h ''young'' m instance \<and> CheckAttr h ''thickness'' m instance"
  let ?r = "Membrane_ctor h m instance
                (strtod h (mj_getPluginConfig h m instance ''poisson''))
                (strtod h (mj_getPluginConfig h m instance ''young''))
                (strtod h (mj_getPluginConfig h m instance ''thickness''))
                (strtod h (mj_getPluginConfig h m instance ''damping''))"
  have no: "\<not> ?ok \<Longrightarrow> Create h m instance =
        (Inr None, flex_stiffness m, [''Invalid parameter specification in shell plugin''])"
    by (auto simp add: Create_def)
  have yes: "?ok \<Longrightarrow> Create h m instance = (bnd (fst ?r) (\<lambda>s. Inr (Some s)), snd ?r, [])"
    by (simp add: Create_def Let_def)
  have some: "bnd (fst ?r) (\<lambda>s. Inr (Some s)) \<noteq> Inr None"
    by (cases "fst ?r") simp_all
  have iff: "fst (Create h m instance) = Inr None \<longleftrightarrow> \<not> ?ok"
  proof (cases ?ok)
    case True
    with yes some show ?thesis by simp
  next
    case False
    with no show ?thesis by simp
  qed
  have indep: "Create (h\<lparr>CheckAttr := chk\<rparr>) m instance = Create h m instance"
    if "chk ''face'' m instance = CheckAttr h ''face'' m instance \<and>
        chk ''poisson'' m instance = CheckAttr h ''poisson'' m instance \<and>
        chk ''young'' m instance = CheckAttr h ''young'' m instance \<and>
        chk ''thickness'' m instance = CheckAttr h ''thickness'' m instance"
    using that unfolding Create_def by (simp add: Membrane_ctor_CheckAttr)
  from iff no yes indep show ?thesis by blast
qed

theorem Create_checks_witness:
  "(CheckAttr std_host ''face'' pinned 0 \<and> CheckAttr std_host ''poisson'' pinned 0 \<and>
    CheckAttr std_host ''young'' pinned 0 \<and> CheckAttr std_host ''thickness'' pinned 0) \<and>
   fst (Create std_host pinned 0) \<noteq> Inr None \<and>
   \<not> CheckAttr (std_host\<lparr>CheckAttr := \<lambda>n m i. n \<noteq> ''young''\<rparr>) ''young'' pinned 0 \<and>
   Create (std_host\<lparr>CheckAttr := \<lambda>n m i. n \<noteq> ''young''\<rparr>) pinned 0 =
     (Inr None, flex_stiffness pinned, [''Invalid parameter specification in shell plugin'']) \<and>
   Create (std_host\<lparr>CheckAttr := \<lambda>n m i. True\<rparr>) pinned 0 = Create std_host pinned 0 \<and>
   Create std_host pinned 0 = (Inr (Some (built 0)), flex_stiffness pinned_built, [])"
proof -
  have v: "strtod std_host (mj_getPluginConfig std_host pinned 0 ''poisson'') = 1 / 4"
    "strtod std_host (mj_getPluginConfig std_host pinned 0 ''young'') = 1000"
    "strtod std_host (mj_getPluginConfig std_host pinned 0 ''thickness'') = 1 / 100"
    "strtod std_host (mj_getPluginConfig std_host pinned 0 ''damping'') = 0"
    by (simp_all add: std_host_def attributes_def)
  have ok: "CheckAttr std_host ''face'' pinned 0 \<and> CheckAttr std_host ''poisson'' pinned 0 \<and>
         CheckAttr std_host ''young'' pinned 0 \<and> CheckAttr std_host ''thickness'' pinned 0"
    by (simp add: std_host_def attributes_def parses_def)
  have no: "\<not> CheckAttr (std_host\<lparr>CheckAttr := \<lambda>n m i. n \<noteq> ''young''\<rparr>) ''young'' pinned 0"
    by simp
  note a = Create_checks [of std_host pinned 0 "\<lambda>n m i. True"]
  note b = Create_checks [of "std_host\<lparr>CheckAttr := \<lambda>n m i. n \<noteq> ''young''\<rparr>" pinned 0
      "\<lambda>n m i. True"]
  from a ok have 1: "fst (Create std_host pinned 0) \<noteq> Inr None" by blast
  from a ok have 2: "Create (std_host\<lparr>CheckAttr := \<lambda>n m i. True\<rparr>) pinned 0 =
      Create std_host pinned 0" by simp
  from b no have 3: "Create (std_host\<lparr>CheckAttr := \<lambda>n m i. n \<noteq> ''young''\<rparr>) pinned 0 =
     (Inr None, flex_stiffness pinned, [''Invalid parameter specification in shell plugin''])"
    by blast
  from a ok have 4: "Create std_host pinned 0 =
      (Inr (Some (built 0)), flex_stiffness pinned_built, [])"
    by (simp add: v ctor_pinned)
  from ok no 1 2 3 4 show ?thesis by blast
qed

theorem Create_ignores_damping:
  "\<not> CheckAttr std_host ''damping'' pinned 0 \<and> \<not> CheckAttr std_host ''edge'' pinned 0 \<and>
   mj_getPluginConfig std_host pinned 0 ''damping'' = ''soft'' \<and>
   mj_getPluginConfig std_host pinned 0 ''edge'' = [] \<and>
   Create std_host pinned 0 = (Inr (Some (built 0)), flex_stiffness pinned_built, [])"
proof -
  have a: "\<not> CheckAttr std_host ''damping'' pinned 0" "\<not> CheckAttr std_host ''edge'' pinned 0"
    "mj_getPluginConfig std_host pinned 0 ''damping'' = ''soft''"
    "mj_getPluginConfig std_host pinned 0 ''edge'' = []"
    by (simp_all add: std_host_def attributes_def parses_def)
  have v: "strtod std_host (mj_getPluginConfig std_host pinned 0 ''poisson'') = 1 / 4"
    "strtod std_host (mj_getPluginConfig std_host pinned 0 ''young'') = 1000"
    "strtod std_host (mj_getPluginConfig std_host pinned 0 ''thickness'') = 1 / 100"
    "strtod std_host (mj_getPluginConfig std_host pinned 0 ''damping'') = 0"
    by (simp_all add: std_host_def attributes_def parses_def)
  have ok: "CheckAttr std_host ''face'' pinned 0 \<and> CheckAttr std_host ''poisson'' pinned 0 \<and>
         CheckAttr std_host ''young'' pinned 0 \<and> CheckAttr std_host ''thickness'' pinned 0"
    by (simp add: std_host_def attributes_def parses_def)
  have "Create std_host pinned 0 = (Inr (Some (built 0)), flex_stiffness pinned_built, [])"
    using ok by (simp add: Create_def Let_def v ctor_pinned)
  with a show ?thesis by simp
qed

text \<open>
  Claim C4. The state the constructor returns has no previous lengths. The first evaluation
  step after it takes as previous lengths a full copy of the reference lengths of the
  flex's edges, so the elongation of every edge uses the reference length as previous
  length. With at least one edge, the previous lengths are not empty afterwards and the
  initialisation leaves them as they are in every later step.
\<close>

theorem first_evaluation:
  assumes "fst (Membrane_ctor h m0 instance nu E thick damp) = Inr s"
    and "Compute h m d s = Inr (s', d')"
    and "rd (flex_edgeadr m) (f0 s) = Inr adr"
  shows "prev s = [] \<and>
         init_prev (flexedge_length0 m, adr) s =
           Inr (take (nat (ne s)) (drop (nat adr) (flexedge_length0 m))) \<and>
         (\<forall>idx<nat (ne s).
            take (nat (ne s)) (drop (nat adr) (flexedge_length0 m)) ! idx =
              flexedge_length0 m ! nat (adr + int idx) \<and>
            elongation s' ! idx =
              flexedge_length d ! nat (adr + int idx) * flexedge_length d ! nat (adr + int idx) -
              flexedge_length0 m ! nat (adr + int idx) * flexedge_length0 m ! nat (adr + int idx) +
              (flexedge_length d ! nat (adr + int idx) * flexedge_length d ! nat (adr + int idx) -
               flexedge_length0 m ! nat (adr + int idx) * flexedge_length0 m ! nat (adr + int idx)) *
              (damping s / opt_timestep m)) \<and>
         (0 < ne s \<longrightarrow> prev s' \<noteq> [] \<and> (\<forall>ref. init_prev ref s' = Inr (prev s')))"
proof -
  from Membrane_ctor_Inr [OF assms(1)] obtain b0 f n where
    "allocate m0 b0 f n damp thick = Inr s" by blast
  from allocate_Inr [OF this] have e: "prev s = []" by simp
  from Compute_Inr [OF assms(2)] assms(3) obtain pv el frc pv' where
    pv: "init_prev (flexedge_length0 m, adr) s = Inr pv"
    and el: "for_res (elongate (flexedge_length d, adr) (flexedge_length0 m, adr) pv
                      (damping s / opt_timestep m)) [0..<nat (ne s)] (elongation s) = Inr el"
    and s': "s' = s\<lparr>elongation := el, force := frc, prev := pv'\<rparr>"
    by auto
  from init_prev_empty [OF pv e] have sl: "slice (flexedge_length0 m) adr (nat (ne s)) = Inr pv"
    by simp
  then have pv_eq: "pv = take (nat (ne s)) (drop (nat adr) (flexedge_length0 m))"
    by (simp add: slice_Inr)
  note L = elongate_loop [OF el]
  have each: "\<forall>idx<nat (ne s).
            pv ! idx = flexedge_length0 m ! nat (adr + int idx) \<and>
            el ! idx =
              flexedge_length d ! nat (adr + int idx) * flexedge_length d ! nat (adr + int idx) -
              flexedge_length0 m ! nat (adr + int idx) * flexedge_length0 m ! nat (adr + int idx) +
              (flexedge_length d ! nat (adr + int idx) * flexedge_length d ! nat (adr + int idx) -
               flexedge_length0 m ! nat (adr + int idx) * flexedge_length0 m ! nat (adr + int idx)) *
              (damping s / opt_timestep m)"
  proof (intro allI impI)
    fix idx assume i: "idx < nat (ne s)"
    have p: "pv ! idx = flexedge_length0 m ! nat (adr + int idx)"
      by (rule slice_nth [OF sl i])
    from L i obtain dl rl pl where
      r: "rdp (flexedge_length d, adr) (int idx) = Inr dl"
         "rdp (flexedge_length0 m, adr) (int idx) = Inr rl"
         "rd pv (int idx) = Inr pl"
      and e: "el ! idx = dl * dl - rl * rl + (dl * dl - pl * pl) * (damping s / opt_timestep m)"
      by blast
    from r p have "dl = flexedge_length d ! nat (adr + int idx)"
      "rl = flexedge_length0 m ! nat (adr + int idx)" "pl = flexedge_length0 m ! nat (adr + int idx)"
      by (simp_all add: rdp_def rd_eq_Inr)
    with e p show "pv ! idx = flexedge_length0 m ! nat (adr + int idx) \<and>
            el ! idx =
              flexedge_length d ! nat (adr + int idx) * flexedge_length d ! nat (adr + int idx) -
              flexedge_length0 m ! nat (adr + int idx) * flexedge_length0 m ! nat (adr + int idx) +
              (flexedge_length d ! nat (adr + int idx) * flexedge_length d ! nat (adr + int idx) -
               flexedge_length0 m ! nat (adr + int idx) * flexedge_length0 m ! nat (adr + int idx)) *
              (damping s / opt_timestep m)"
      by simp
  qed
  from Compute_prev_length [OF assms(2)] e have "length (prev s') = nat (ne s)" by simp
  then have once: "0 < ne s \<longrightarrow> prev s' \<noteq> [] \<and> (\<forall>ref. init_prev ref s' = Inr (prev s'))"
    by (auto simp: init_prev_def)
  from e pv each once show ?thesis unfolding pv_eq [symmetric] s' by simp
qed

theorem first_evaluation_witness:
  "fst (Membrane_ctor std_host pinned 0 (1 / 4) 1000 (1 / 100) (1 / 10)) = Inr (built (1 / 10)) \<and>
   Compute std_host pinned_built stretched (built (1 / 10)) =
     Inr (stepped (1 / 10) [357, 0, 0] [0, 0, 0, 357, 0, 0, 0, 357, 0] [4, 5, 4],
          stretched\<lparr>qfrc_passive := [1, 1, 1, 358, 1, 1, 1, 358, 1]\<rparr>) \<and>
   rd (flex_edgeadr pinned_built) (f0 (built (1 / 10))) = Inr 0 \<and>
   prev (built (1 / 10)) = [] \<and>
   init_prev (flexedge_length0 pinned_built, 0) (built (1 / 10)) =
     Inr (take 3 (flexedge_length0 pinned_built)) \<and>
   take 3 (flexedge_length0 pinned_built) ! 1 = flexedge_length0 pinned_built ! 1 \<and>
   0 < ne (built (1 / 10)) \<and>
   prev (stepped (1 / 10) [357, 0, 0] [0, 0, 0, 357, 0, 0, 0, 357, 0] [4, 5, 4]) \<noteq> [] \<and>
   init_prev (flexedge_length0 pinned_built, 0)
     (stepped (1 / 10) [357, 0, 0] [0, 0, 0, 357, 0, 0, 0, 357, 0] [4, 5, 4]) =
     Inr (prev (stepped (1 / 10) [357, 0, 0] [0, 0, 0, 357, 0, 0, 0, 357, 0] [4, 5, 4]))"
proof -
  have c: "fst (Membrane_ctor std_host pinned 0 (1 / 4) 1000 (1 / 100) (1 / 10)) =
             Inr (built (1 / 10))"
    by (simp add: ctor_pinned)
  have n: "0 < ne (built (1 / 10))" "nat (ne (built (1 / 10))) = 3" "(1::nat) < 3"
    by (simp_all add: built_def)
  from first_evaluation [OF c Compute_stretched_damped edgeadr_pinned] n
  show ?thesis using c Compute_stretched_damped edgeadr_pinned by simp
qed

text \<open>
  Claim C5, as the code has it. The guard of the final copy is \<open>kD > 0\<close> with \<open>kD\<close> the
  damping divided by the timestep. At the end of an evaluation step of an instance, the
  previous lengths are this step's deformed lengths when damping / timestep > 0, and
  otherwise the previous lengths the step used. With damping 0 they are unchanged; for a
  positive timestep they are overwritten exactly when damping > 0. (With a negative
  timestep and a negative damping they are overwritten too.)
\<close>

theorem prev_update:
  assumes "reachable h s"
    and "Compute h m d s = Inr (s', d')"
    and "rd (flex_edgeadr m) (f0 s) = Inr adr"
    and "init_prev (flexedge_length0 m, adr) s = Inr pv"
  shows "prev s' = (if 0 < damping s / opt_timestep m
                    then take (nat (ne s)) (drop (nat adr) (flexedge_length d)) else pv) \<and>
         (damping s = 0 \<longrightarrow> prev s' = pv) \<and>
         (0 < opt_timestep m \<longrightarrow>
            prev s' = (if 0 < damping s
                       then take (nat (ne s)) (drop (nat adr) (flexedge_length d)) else pv))"
proof -
  from Compute_Inr [OF assms(2)] assms(3,4) obtain el frc pv' where
     up: "if damping s / opt_timestep m > 0
            then 0 \<le> ne s \<and> (\<exists>dls. slice (flexedge_length d) adr (nat (ne s)) = Inr dls \<and>
                    wr_block (pv, 0) 0 dls = Inr pv')
            else pv' = pv"
    and s': "s' = s\<lparr>elongation := el, force := frc, prev := pv'\<rparr>"
    by auto
  from reachable_inv [OF assms(1)] have "prev s = [] \<or> length (prev s) = nat (ne s)"
    by (simp add: consistent_def)
  from init_prev_length [OF assms(4) this] have lpv: "length pv = nat (ne s)" .
  have 1: "pv' = (if 0 < damping s / opt_timestep m
                    then take (nat (ne s)) (drop (nat adr) (flexedge_length d)) else pv)"
  proof (cases "damping s / opt_timestep m > 0")
    case True
    with up obtain dls where dls: "slice (flexedge_length d) adr (nat (ne s)) = Inr dls"
      and w: "wr_block (pv, 0) 0 dls = Inr pv'" by auto
    from slice_length [OF dls] wr_block_whole [OF w] lpv have "pv' = dls" by simp
    with dls True show ?thesis by (simp add: slice_Inr)
  next
    case False
    with up show ?thesis by simp
  qed
  have 2: "0 < opt_timestep m \<Longrightarrow> (0 < damping s / opt_timestep m) = (0 < damping s)"
    by (simp add: zero_less_divide_iff)
  from 1 2 show ?thesis unfolding s' by simp
qed

theorem prev_update_witness:
  "reachable std_host (built (1 / 10)) \<and>
   Compute std_host pinned_built stretched (built (1 / 10)) =
     Inr (stepped (1 / 10) [357, 0, 0] [0, 0, 0, 357, 0, 0, 0, 357, 0] [4, 5, 4],
          stretched\<lparr>qfrc_passive := [1, 1, 1, 358, 1, 1, 1, 358, 1]\<rparr>) \<and>
   rd (flex_edgeadr pinned_built) (f0 (built (1 / 10))) = Inr 0 \<and>
   init_prev (flexedge_length0 pinned_built, 0) (built (1 / 10)) = Inr [3, 5, 4] \<and>
   0 < opt_timestep pinned_built \<and> 0 < damping (built (1 / 10)) \<and>
   prev (stepped (1 / 10) [357, 0, 0] [0, 0, 0, 357, 0, 0, 0, 357, 0] [4, 5, 4]) =
     take 3 (flexedge_length stretched) \<and>
   damping (built 0) = 0 \<and>
   prev (stepped 0 [7, 0, 0] [0, 0, 0, 7, 0, 0, 0, 7, 0] [3, 5, 4]) = [3, 5, 4]"
proof -
  have t: "0 < opt_timestep pinned_built" by (simp add: pinned_built_def pinned_def)
  have d: "0 < damping (built (1 / 10))" "damping (built 0) = 0"
    "nat (ne (built (1 / 10))) = 3" by (simp_all add: built_def)
  note a = prev_update [OF reachable_built Compute_stretched_damped edgeadr_pinned init_prev_built]
  note b = prev_update [OF reachable_built Compute_stretched_undamped edgeadr_pinned
      init_prev_built]
  from a t d have "prev (stepped (1 / 10) [357, 0, 0] [0, 0, 0, 357, 0, 0, 0, 357, 0] [4, 5, 4]) =
     take 3 (flexedge_length stretched)" by simp
  moreover from b d
  have "prev (stepped 0 [7, 0, 0] [0, 0, 0, 7, 0, 0, 0, 7, 0] [3, 5, 4]) = [3, 5, 4]" by simp
  ultimately show ?thesis
    using reachable_built Compute_stretched_damped edgeadr_pinned init_prev_built t d by simp
qed

theorem negative_timestep_overwrites:
  "reachable std_host (built (- (1 / 2))) \<and>
   damping (built (- (1 / 2))) = - (1 / 2) \<and> \<not> 0 < damping (built (- (1 / 2))) \<and>
   opt_timestep (pinned_built\<lparr>opt_timestep := - (1 / 2)\<rparr>) = - (1 / 2) \<and>
   init_prev (flexedge_length0 (pinned_built\<lparr>opt_timestep := - (1 / 2)\<rparr>), 0)
     (built (- (1 / 2))) = Inr [3, 5, 4] \<and>
   Compute std_host (pinned_built\<lparr>opt_timestep := - (1 / 2)\<rparr>) stretched (built (- (1 / 2))) =
     Inr (stepped (- (1 / 2)) [14, 0, 0] [0, 0, 0, 14, 0, 0, 0, 14, 0] [4, 5, 4],
          stretched\<lparr>qfrc_passive := [1, 1, 1, 15, 1, 1, 1, 15, 1]\<rparr>) \<and>
   prev (stepped (- (1 / 2)) [14, 0, 0] [0, 0, 0, 14, 0, 0, 0, 14, 0] [4, 5, 4]) =
     flexedge_length stretched \<and>
   flexedge_length stretched \<noteq> [3, 5, 4]"
  using reachable_built [of "- (1 / 2)"] Compute_negative
  by (simp add: init_prev_def slice_def built_def stepped_def pinned_built_def pinned_def
        stretched_def)

text \<open>
  Claim C6, as the code has it. If a vertex of triangle \<open>t\<close> is on a body other than body 0
  whose plugin instance differs from the one being constructed (all reads of the triangle's
  scan being in range), the constructor stops with the fatal error, and the stiffness
  storage is the one the triangles before \<open>t\<close> left: nothing is written for \<open>t\<close>.
\<close>

theorem foreign_vertex_aborts:
  assumes "locate m instance = Inr (b0, f, n)"
    and "rd (flex_vertadr m) f = Inr vadr"
    and "rd (flex_elemdataadr m) f = Inr edadr"
    and "rd (flex_elemnum m) f = Inr nt"
    and "rd (flex_dim m) f = Inr dm"
    and "t < nat nt"
    and "for_loop (element h m instance nu E thick f (flex_xvert0 m, 3 * vadr) (flex_elem m, edadr))
           [0..<t] (flex_stiffness m) = (k, None)"
    and "\<forall>j<kNumVerts. \<exists>bj.
           vertex_body m f (flex_elem m, edadr + (dm + 1) * int t) j = Inr bj \<and>
           (bj = 0 \<or> (\<exists>q. rd (body_plugin m) bj = Inr q))"
    and "i < kNumVerts"
    and "vertex_body m f (flex_elem m, edadr + (dm + 1) * int t) i = Inr bi"
    and "bi \<noteq> 0"
    and "rd (body_plugin m) bi = Inr p"
    and "p \<noteq> instance"
  shows "\<exists>b. b \<noteq> 0 \<and>
           Membrane_ctor h m instance nu E thick damp = (Inl (MjuError b instance), k)"
proof -
  let ?body = "element h m instance nu E thick f (flex_xvert0 m, 3 * vadr) (flex_elem m, edadr)"
  from scan_offending [OF assms(8-13)] obtain b where b: "b \<noteq> 0"
    and sc: "scan m instance f (flex_elem m, edadr + (dm + 1) * int t) = Inl (MjuError b instance)"
    by blast
  have "?body t k = Inl (MjuError b instance)"
    by (rule element_scan_fails [OF assms(5)]) (simp add: sc)
  from for_loop_stops [OF assms(7) this assms(6)]
  have "for_loop ?body [0..<nat nt] (flex_stiffness m) = (k, Some (MjuError b instance))" .
  then have "triangles h m instance nu E thick f (flex_stiffness m) = (k, Some (MjuError b instance))"
    using assms(2-4) by (simp add: triangles_def)
  then have "Membrane_ctor h m instance nu E thick damp = (Inl (MjuError b instance), k)"
    using assms(1) by (simp add: Membrane_ctor_def Let_def)
  with b show ?thesis by blast
qed

theorem foreign_vertex_aborts_witness:
  "locate foreign 0 = Inr (Some 1, 0, 4) \<and>
   rd (flex_vertadr foreign) 0 = Inr 0 \<and> rd (flex_elemdataadr foreign) 0 = Inr 0 \<and>
   rd (flex_elemnum foreign) 0 = Inr 2 \<and> rd (flex_dim foreign) 0 = Inr 2 \<and>
   (1::nat) < nat 2 \<and>
   for_loop (element std_host foreign 0 (1 / 4) 1000 (1 / 100) 0
               (flex_xvert0 foreign, 3 * 0) (flex_elem foreign, 0))
     [0..<1] (flex_stiffness foreign) = (1 / 4 # - (2 / 3) # replicate 40 0, None) \<and>
   (1::nat) < kNumVerts \<and>
   vertex_body foreign 0 (flex_elem foreign, 0 + (2 + 1) * int 1) 1 = Inr 4 \<and>
   (4::int) \<noteq> 0 \<and> rd (body_plugin foreign) 4 = Inr 7 \<and> (7::int) \<noteq> 0 \<and>
   isl (fst (Membrane_ctor std_host foreign 0 (1 / 4) 1000 (1 / 100) 0)) \<and>
   snd (Membrane_ctor std_host foreign 0 (1 / 4) 1000 (1 / 100) 0) =
     1 / 4 # - (2 / 3) # replicate 40 0"
proof -
  have r: "rd (flex_vertadr foreign) 0 = Inr 0" "rd (flex_elemdataadr foreign) 0 = Inr 0"
    "rd (flex_elemnum foreign) 0 = Inr 2" "rd (flex_dim foreign) 0 = Inr 2"
    by (simp_all add: rd_def foreign_def)
  have t: "(1::nat) < nat 2" by simp
  have i: "(1::nat) < kNumVerts" by (simp add: kNumVerts_def)
  have v: "vertex_body foreign 0 (flex_elem foreign, 0 + (2 + 1) * int 1) 1 = Inr 4"
    by (simp add: vertex_body_def rd_def rdp_def foreign_def)
  have b: "(4::int) \<noteq> 0" "rd (body_plugin foreign) 4 = Inr 7" "(7::int) \<noteq> 0"
    by (simp_all add: rd_def foreign_def)
  have all: "\<forall>j<kNumVerts. \<exists>bj.
           vertex_body foreign 0 (flex_elem foreign, 0 + (2 + 1) * int 1) j = Inr bj \<and>
           (bj = 0 \<or> (\<exists>q. rd (body_plugin foreign) bj = Inr q))"
    unfolding all_verts by (simp add: vertex_body_def rd_def rdp_def foreign_def)
  from foreign_vertex_aborts [OF locate_foreign r t first_triangle_foreign all i v b]
  obtain e where "Membrane_ctor std_host foreign 0 (1 / 4) 1000 (1 / 100) 0 =
      (Inl (MjuError e 0), 1 / 4 # - (2 / 3) # replicate 40 0)"
    by blast
  then have "isl (fst (Membrane_ctor std_host foreign 0 (1 / 4) 1000 (1 / 100) 0))"
    "snd (Membrane_ctor std_host foreign 0 (1 / 4) 1000 (1 / 100) 0) =
       1 / 4 # - (2 / 3) # replicate 40 0"
    by simp_all
  with locate_foreign r t first_triangle_foreign i v b show ?thesis by simp
qed

theorem world_vertex_no_abort:
  "vertex_body pinned 0 (flex_elem pinned, 0) 0 = Inr 0 \<and>
   rd (body_plugin pinned) 0 = Inr (- 1) \<and> (- 1 :: int) \<noteq> 0 \<and>
   Membrane_ctor std_host pinned 0 (1 / 4) 1000 (1 / 100) 0 =
     (Inr (built 0), flex_stiffness pinned_built)"
  by (simp add: ctor_pinned) (simp add: vertex_body_def rd_def rdp_def pinned_def)

text \<open>
  Claim C7. With a nonzero area, the basis tensor that \<open>ComputeBasis\<close> returns has nine
  entries, entry \<open>3 i + j\<close> being (basisL[i] basisR[j] + basisR[i] basisL[j]) / (8 area area)
  for two vectors basisL and basisR, and it is symmetric: entry \<open>3 i + j\<close> equals entry
  \<open>3 j + i\<close>.
\<close>

theorem ComputeBasis_symmetric:
  assumes "ComputeBasis x v faceL faceR area = Inr b" and "area \<noteq> 0"
  shows "length b = 9 \<and>
         (\<exists>basisL basisR. \<forall>i<3. \<forall>j<3.
            b ! (3 * i + j) =
              (at3 basisL i * at3 basisR j + at3 basisR i * at3 basisL j) / (8 * area * area) \<and>
            b ! (3 * i + j) = b ! (3 * j + i))"
proof -
  from assms(1) obtain bL bR where b: "b = basis_entries bL bR area"
    by (auto simp: ComputeBasis_def bnd_eq_Inr Let_def split: if_splits)
  have "\<forall>i<3. \<forall>j<3.
          b ! (3 * i + j) = (at3 bL i * at3 bR j + at3 bR i * at3 bL j) / (8 * area * area) \<and>
          b ! (3 * i + j) = b ! (3 * j + i)"
  proof (intro allI impI)
    fix i j :: nat
    assume i: "i < 3" and j: "j < 3"
    have 1: "b ! (3 * i + j) =
               (at3 bL i * at3 bR j + at3 bR i * at3 bL j) / (8 * area * area)"
      unfolding b by (rule basis_entries_nth [OF i j])
    have 2: "b ! (3 * j + i) =
               (at3 bL j * at3 bR i + at3 bR j * at3 bL i) / (8 * area * area)"
      unfolding b by (rule basis_entries_nth [OF j i])
    show "b ! (3 * i + j) =
            (at3 bL i * at3 bR j + at3 bR i * at3 bL j) / (8 * area * area) \<and>
          b ! (3 * i + j) = b ! (3 * j + i)"
      using 1 2 by (simp add: mult.commute add.commute)
  qed
  then show ?thesis using b basis_entries_length by blast
qed

theorem ComputeBasis_symmetric_witness:
  "ComputeBasis (flex_xvert0 pinned, 0) (flex_elem pinned, 0) (2, 0) (0, 1) 6 =
     Inr [0, 1 / 24, 0, 1 / 24, 0, 0, 0, 0, 0] \<and>
   (6::mjtNum) \<noteq> 0 \<and>
   length [0, 1 / 24, 0, 1 / 24, 0, 0, 0, 0, 0::mjtNum] = 9 \<and>
   [0, 1 / 24, 0, 1 / 24, 0, 0, 0, 0, 0::mjtNum] ! (3 * 0 + 1) =
     [0, 1 / 24, 0, 1 / 24, 0, 0, 0, 0, 0] ! (3 * 1 + 0)"
proof -
  have e: "ComputeBasis (flex_xvert0 pinned, 0) (flex_elem pinned, 0) (2, 0) (0, 1) 6 =
     Inr [0, 1 / 24, 0, 1 / 24, 0, 0, 0, 0, 0]"
    by (simp add: eval_defs pinned_def)
  have six: "(6::mjtNum) \<noteq> 0" by simp
  from ComputeBasis_symmetric [OF e six]
  have "length [0, 1 / 24, 0, 1 / 24, 0, 0, 0, 0, 0::mjtNum] = 9"
    and "\<forall>i<3. \<forall>j<3. [0, 1 / 24, 0, 1 / 24, 0, 0, 0, 0, 0::mjtNum] ! (3 * i + j) =
           [0, 1 / 24, 0, 1 / 24, 0, 0, 0, 0, 0] ! (3 * j + i)"
    by blast+
  then have "[0, 1 / 24, 0, 1 / 24, 0, 0, 0, 0, 0::mjtNum] ! (3 * 0 + 1) =
     [0, 1 / 24, 0, 1 / 24, 0, 0, 0, 0, 0] ! (3 * 1 + 0)"
    by (metis zero_less_numeral one_less_numeral_iff semiring_norm(77))
  with e six show ?thesis by simp
qed

text \<open>
  Claim C8, as the code has it. In an evaluation step that returns, from any state whose
  elongation vector has one entry per tracked edge, whatever these entries and the force
  buffer held before: if every edge has its deformed length and its previous length equal
  to its reference length, then the timestep is not zero, every elongation is 0 and every
  entry of the force buffer is 0, whatever the damping is. (With a timestep of zero the
  step divides by zero and gives no such elongations.)
\<close>

theorem rest_state_no_force:
  assumes "Compute h m d s = Inr (s', d')"
    and "rd (flex_edgeadr m) (f0 s) = Inr adr"
    and "init_prev (flexedge_length0 m, adr) s = Inr pv"
    and "length (elongation s) = nat (ne s)"
    and "\<forall>idx<nat (ne s).
           flexedge_length d ! nat (adr + int idx) = flexedge_length0 m ! nat (adr + int idx) \<and>
           pv ! idx = flexedge_length0 m ! nat (adr + int idx)"
  shows "opt_timestep m \<noteq> 0 \<and>
         length (elongation s') = nat (ne s) \<and>
         (\<forall>idx<nat (ne s). elongation s' ! idx = 0) \<and>
         length (force s') = length (force s) \<and>
         (\<forall>c<length (force s'). force s' ! c = 0)"
proof -
  from Compute_Inr [OF assms(1)] assms(2,3) obtain el frc pv' where
    t: "opt_timestep m \<noteq> 0"
    and el: "for_res (elongate (flexedge_length d, adr) (flexedge_length0 m, adr) pv
                      (damping s / opt_timestep m)) [0..<nat (ne s)] (elongation s) = Inr el"
    and frc: "ComputeForce h (force s) el m d (f0 s) = Inr frc"
    and s': "s' = s\<lparr>elongation := el, force := frc, prev := pv'\<rparr>"
    by auto
  note L = elongate_loop [OF el]
  have zero: "\<forall>idx<nat (ne s). el ! idx = 0"
  proof (intro allI impI)
    fix idx assume i: "idx < nat (ne s)"
    with L obtain dl rl pl where
      r: "rdp (flexedge_length d, adr) (int idx) = Inr dl"
         "rdp (flexedge_length0 m, adr) (int idx) = Inr rl"
         "rd pv (int idx) = Inr pl"
      and e: "el ! idx = dl * dl - rl * rl + (dl * dl - pl * pl) * (damping s / opt_timestep m)"
      by blast
    from r assms(5) i have "dl = rl" "pl = rl" by (simp_all add: rdp_def rd_eq_Inr)
    with e show "el ! idx = 0" by simp
  qed
  have len: "length el = nat (ne s)" using L assms(4) by simp
  with zero have "\<forall>i<length el. el ! i = 0" by simp
  from ComputeForce_zero [OF frc this] have "frc = replicate (length (force s)) 0" .
  then have "length frc = length (force s) \<and> (\<forall>c<length frc. frc ! c = 0)" by simp
  with zero len t s' show ?thesis by simp
qed

theorem rest_state_no_force_witness:
  "reachable std_host
     (stepped (1 / 10) [- 350, 0, 0] [0, 0, 0, - (525 / 2), 0, 0, 0, - 350, 0] [3, 5, 4]) \<and>
   Compute std_host pinned_built rest_pose
     (stepped (1 / 10) [- 350, 0, 0] [0, 0, 0, - (525 / 2), 0, 0, 0, - 350, 0] [3, 5, 4]) =
     Inr (stepped (1 / 10) [0, 0, 0] [0, 0, 0, 0, 0, 0, 0, 0, 0] [3, 5, 4], rest_pose) \<and>
   rd (flex_edgeadr pinned_built)
     (f0 (stepped (1 / 10) [- 350, 0, 0] [0, 0, 0, - (525 / 2), 0, 0, 0, - 350, 0] [3, 5, 4])) =
     Inr 0 \<and>
   init_prev (flexedge_length0 pinned_built, 0)
     (stepped (1 / 10) [- 350, 0, 0] [0, 0, 0, - (525 / 2), 0, 0, 0, - 350, 0] [3, 5, 4]) =
     Inr [3, 5, 4] \<and>
   flexedge_length rest_pose = flexedge_length0 pinned_built \<and>
   flexedge_length0 pinned_built = [3, 5, 4] \<and>
   elongation
     (stepped (1 / 10) [- 350, 0, 0] [0, 0, 0, - (525 / 2), 0, 0, 0, - 350, 0] [3, 5, 4]) ! 0 =
     - 350 \<and>
   force
     (stepped (1 / 10) [- 350, 0, 0] [0, 0, 0, - (525 / 2), 0, 0, 0, - 350, 0] [3, 5, 4]) ! 7 =
     - 350 \<and>
   damping
     (stepped (1 / 10) [- 350, 0, 0] [0, 0, 0, - (525 / 2), 0, 0, 0, - 350, 0] [3, 5, 4]) =
     1 / 10 \<and>
   opt_timestep pinned_built \<noteq> 0 \<and>
   elongation (stepped (1 / 10) [0, 0, 0] [0, 0, 0, 0, 0, 0, 0, 0, 0] [3, 5, 4]) ! 0 = 0 \<and>
   length (force (stepped (1 / 10) [0, 0, 0] [0, 0, 0, 0, 0, 0, 0, 0, 0] [3, 5, 4])) = 9 \<and>
   force (stepped (1 / 10) [0, 0, 0] [0, 0, 0, 0, 0, 0, 0, 0, 0] [3, 5, 4]) ! 7 = 0"
proof -
  let ?s = "stepped (1 / 10) [- 350, 0, 0] [0, 0, 0, - (525 / 2), 0, 0, 0, - 350, 0] [3, 5, 4]"
  let ?s' = "stepped (1 / 10) [0, 0, 0] [0, 0, 0, 0, 0, 0, 0, 0, 0] [3, 5, 4]"
  have r: "reachable std_host ?s"
    by (rule reachable.step [OF reachable.step [OF reachable_built Compute_stretched_damped]
          Compute_rest_after_stretch])
  have e: "flexedge_length rest_pose = flexedge_length0 pinned_built"
    "flexedge_length0 pinned_built = [3, 5, 4]"
    by (simp_all add: rest_pose_def pinned_built_def pinned_def)
  have adr: "rd (flex_edgeadr pinned_built) (f0 ?s) = Inr 0"
    by (simp add: rd_def pinned_built_def pinned_def stepped_def built_def)
  have pv: "init_prev (flexedge_length0 pinned_built, 0) ?s = Inr [3, 5, 4]"
    by (simp add: init_prev_def stepped_def built_def)
  have n: "nat (ne ?s) = 3" "length (force ?s) = 9" "length (elongation ?s) = nat (ne ?s)"
    by (simp_all add: stepped_def built_def)
  have stale: "elongation ?s ! 0 = - 350" "force ?s ! 7 = - 350" "damping ?s = 1 / 10"
    by (simp_all add: stepped_def built_def)
  have same: "\<forall>idx<nat (ne ?s).
           flexedge_length rest_pose ! nat (0 + int idx) =
             flexedge_length0 pinned_built ! nat (0 + int idx) \<and>
           [3, 5, 4] ! idx = flexedge_length0 pinned_built ! nat (0 + int idx)"
    by (simp add: e)
  note a = rest_state_no_force [OF Compute_rest_again adr pv n(3) same]
  from a n have "opt_timestep pinned_built \<noteq> 0" "elongation ?s' ! 0 = 0"
    "length (force ?s') = 9" "force ?s' ! 7 = 0"
    by simp_all
  then show ?thesis
    using r Compute_rest_again adr pv e stale by simp
qed

theorem rest_pose_zero_timestep:
  "reachable std_host (built (1 / 10)) \<and>
   flexedge_length rest_pose = flexedge_length0 (pinned_built\<lparr>opt_timestep := 0\<rparr>) \<and>
   init_prev (flexedge_length0 (pinned_built\<lparr>opt_timestep := 0\<rparr>), 0) (built (1 / 10)) =
     Inr (flexedge_length0 (pinned_built\<lparr>opt_timestep := 0\<rparr>)) \<and>
   opt_timestep (pinned_built\<lparr>opt_timestep := 0\<rparr>) = 0 \<and>
   Compute std_host (pinned_built\<lparr>opt_timestep := 0\<rparr>) rest_pose (built (1 / 10)) =
     Inl NonFinite \<and>
   Compute std_host (pinned_built\<lparr>opt_timestep := 0\<rparr>) rest_pose (built 0) = Inl NonFinite"
  using reachable_built [of "1 / 10"] Compute_zero_timestep
  by (simp add: init_prev_def slice_def built_def rest_pose_def pinned_built_def pinned_def)

text \<open>
  Claim C9. In every state an instance reaches, the previous lengths are empty or have one
  entry per tracked edge.
\<close>

theorem prev_empty_or_full:
  assumes "reachable h s"
  shows "prev s = [] \<or> length (prev s) = nat (ne s)"
  using reachable_inv [OF assms] by (simp add: consistent_def)

theorem prev_empty_or_full_witness:
  "reachable std_host (built (1 / 10)) \<and>
   reachable std_host (stepped (1 / 10) [357, 0, 0] [0, 0, 0, 357, 0, 0, 0, 357, 0] [4, 5, 4]) \<and>
   (prev (built (1 / 10)) = [] \<or> length (prev (built (1 / 10))) = nat (ne (built (1 / 10)))) \<and>
   (prev (stepped (1 / 10) [357, 0, 0] [0, 0, 0, 357, 0, 0, 0, 357, 0] [4, 5, 4]) = [] \<or>
    length (prev (stepped (1 / 10) [357, 0, 0] [0, 0, 0, 357, 0, 0, 0, 357, 0] [4, 5, 4])) =
      nat (ne (stepped (1 / 10) [357, 0, 0] [0, 0, 0, 357, 0, 0, 0, 357, 0] [4, 5, 4])))"
proof -
  have r: "reachable std_host (stepped (1 / 10) [357, 0, 0] [0, 0, 0, 357, 0, 0, 0, 357, 0] [4, 5, 4])"
    by (rule reachable.step [OF reachable_built Compute_stretched_damped])
  from prev_empty_or_full [OF reachable_built [of "1 / 10"]] prev_empty_or_full [OF r]
  show ?thesis using r reachable_built by blast
qed

text \<open>
  Claim C10. A vertex on body 0 passes the check of the scan, whatever the plugin instance
  of body 0 is, and so does a triangle whose vertices are all on body 0. The check raises
  the fatal error only for a vertex on a body other than 0 whose plugin instance is not the
  one being constructed, and a fatal error of the constructor names such a body.
\<close>

theorem world_vertex_exempt:
  "(vertex_body m f v i = Inr 0 \<longrightarrow> check_vertex m instance f v i u = Inr ()) \<and>
   ((\<forall>j<kNumVerts. vertex_body m f v j = Inr 0) \<longrightarrow> scan m instance f v = Inr ()) \<and>
   (check_vertex m instance f v i u = Inl (MjuError b k) \<longrightarrow>
      b \<noteq> 0 \<and> k = instance \<and> vertex_body m f v i = Inr b \<and>
      (\<exists>p. rd (body_plugin m) b = Inr p \<and> p \<noteq> instance)) \<and>
   (fst (Membrane_ctor h m instance nu E thick damp) = Inl (MjuError b k) \<longrightarrow>
      b \<noteq> 0 \<and> k = instance \<and> (\<exists>p. rd (body_plugin m) b = Inr p \<and> p \<noteq> instance))"
proof (intro conjI impI)
  assume "vertex_body m f v i = Inr 0"
  then show "check_vertex m instance f v i u = Inr ()" by (simp add: check_vertex_def)
next
  assume a: "\<forall>j<kNumVerts. vertex_body m f v j = Inr 0"
  have "for_res (check_vertex m instance f v) [0..<kNumVerts] () = Inr ()"
  proof (cases "for_res (check_vertex m instance f v) [0..<kNumVerts] ()")
    case (Inl e)
    from for_res_Inl [OF this] obtain j w where "j < kNumVerts"
      "check_vertex m instance f v j w = Inl e" by auto
    with a show ?thesis by (simp add: check_vertex_def)
  next
    case (Inr w)
    then show ?thesis by simp
  qed
  then show "scan m instance f v = Inr ()" by (simp add: scan_def)
next
  assume c: "check_vertex m instance f v i u = Inl (MjuError b k)"
  from check_vertex_MjuError [OF c]
  show "b \<noteq> 0" "k = instance" "vertex_body m f v i = Inr b"
    "\<exists>p. rd (body_plugin m) b = Inr p \<and> p \<noteq> instance" by simp_all
next
  assume c: "fst (Membrane_ctor h m instance nu E thick damp) = Inl (MjuError b k)"
  from Membrane_ctor_MjuError [OF c]
  show "b \<noteq> 0" "k = instance" "\<exists>p. rd (body_plugin m) b = Inr p \<and> p \<noteq> instance" by auto
qed

theorem world_vertex_exempt_witness:
  "vertex_body pinned 0 (flex_elem pinned, 0) 0 = Inr 0 \<and>
   check_vertex pinned 0 0 (flex_elem pinned, 0) 0 () = Inr () \<and>
   vertex_body (pinned\<lparr>flex_vertbodyid := [0, 0, 0]\<rparr>) 0 (flex_elem pinned, 0) 2 = Inr 0 \<and>
   scan (pinned\<lparr>flex_vertbodyid := [0, 0, 0]\<rparr>) 0 0 (flex_elem pinned, 0) = Inr () \<and>
   check_vertex foreign 0 0 (flex_elem foreign, 3) 1 () = Inl (MjuError 4 0) \<and>
   vertex_body foreign 0 (flex_elem foreign, 3) 1 = Inr 4 \<and>
   fst (Membrane_ctor std_host foreign 0 (1 / 4) 1000 (1 / 100) 0) = Inl (MjuError 4 0) \<and>
   (4::int) \<noteq> 0 \<and> (\<exists>p. rd (body_plugin foreign) 4 = Inr p \<and> p \<noteq> 0)"
proof -
  have cv: "check_vertex foreign 0 0 (flex_elem foreign, 3) 1 () = Inl (MjuError 4 0)"
    by (simp add: check_vertex_def vertex_body_def rd_def rdp_def foreign_def)
  note e = world_vertex_exempt [of foreign 0 "(flex_elem foreign, 3)" 1 0 "()" 4 0 std_host
      "1 / 4" 1000 "1 / 100" 0]
  from e cv have 5: "vertex_body foreign 0 (flex_elem foreign, 3) 1 = Inr 4" by blast
  have w: "vertex_body pinned 0 (flex_elem pinned, 0) 0 = Inr 0"
    by (simp add: vertex_body_def rd_def rdp_def pinned_def)
  have all: "\<forall>j<kNumVerts.
      vertex_body (pinned\<lparr>flex_vertbodyid := [0, 0, 0]\<rparr>) 0 (flex_elem pinned, 0) j = Inr 0"
    unfolding all_verts by (simp add: vertex_body_def rd_def rdp_def pinned_def)
  have c: "fst (Membrane_ctor std_host foreign 0 (1 / 4) 1000 (1 / 100) 0) = Inl (MjuError 4 0)"
    by (simp add: ctor_foreign)
  note a = world_vertex_exempt [of pinned 0 "(flex_elem pinned, 0)" 0 0 "()" 4 0 std_host
      "1 / 4" 1000 "1 / 100" 0]
  note b = world_vertex_exempt [of "pinned\<lparr>flex_vertbodyid := [0, 0, 0]\<rparr>" 0
      "(flex_elem pinned, 0)" 2 0 "()" 4 0 std_host "1 / 4" 1000 "1 / 100" 0]
  note d = world_vertex_exempt [of foreign 0 "(flex_elem pinned, 0)" 0 0 "()" 4 0 std_host
      "1 / 4" 1000 "1 / 100" 0]
  from a w have 1: "check_vertex pinned 0 0 (flex_elem pinned, 0) 0 () = Inr ()" by blast
  from b all have 2: "scan (pinned\<lparr>flex_vertbodyid := [0, 0, 0]\<rparr>) 0 0 (flex_elem pinned, 0) = Inr ()"
    by blast
  from d c have 3: "(4::int) \<noteq> 0 \<and> (\<exists>p. rd (body_plugin foreign) 4 = Inr p \<and> p \<noteq> 0)" by blast
  from all have 4: "vertex_body (pinned\<lparr>flex_vertbodyid := [0, 0, 0]\<rparr>) 0 (flex_elem pinned, 0) 2 = Inr 0"
    by (simp add: kNumVerts_def)
  from w 1 2 3 4 5 c cv show ?thesis by blast
qed

end
